theory Spec2Isabelle
  imports Complex_Main
begin

section \<open>Data model\<close>

text \<open>
  A queue entry and the now-playing slot are Python tuples \<open>(title, url)\<close>
  (\<open>main.py\<close>, the comment on \<open>bot.guild_settings\<close>).
\<close>

type_synonym song = "string \<times> string"

text \<open>
  The volume is a Python \<open>float\<close>. Every finite float is a rational number and the
  comparisons of \<open>volume\<close> are against \<open>0.0\<close> and \<open>2.0\<close>, so finite values are
  modelled as \<open>rat\<close>; the three special values are kept apart because they compare
  differently (\<open>nan\<close> is neither smaller nor larger than anything, and is truthy).
\<close>

datatype pyfloat = Fin rat | PosInf | NegInf | NaN

fun float_less :: "pyfloat \<Rightarrow> pyfloat \<Rightarrow> bool" where
  "float_less NaN _ = False"
| "float_less _ NaN = False"
| "float_less (Fin a) (Fin b) = (a < b)"
| "float_less NegInf NegInf = False"
| "float_less NegInf _ = True"
| "float_less _ NegInf = False"
| "float_less PosInf _ = False"
| "float_less _ PosInf = True"

text \<open>Python truth value of a float: \<open>not vol\<close> holds exactly for \<open>0.0\<close>.\<close>

fun float_truthy :: "pyfloat \<Rightarrow> bool" where
  "float_truthy (Fin r) = (r \<noteq> 0)"
| "float_truthy _ = True"

text \<open>
  One entry of \<open>bot.guild_settings\<close>, with the keys \<open>ensure_guild_settings\<close> creates
  (\<open>helpers.py\<close>, lines 113 to 119).
\<close>

record settings =
  volume :: pyfloat
  loop :: bool
  currently_playing :: "song option"
  song_queue :: "song list"
  replay :: bool

definition default_settings :: settings where
  "default_settings =
     \<lparr>volume = Fin (1 / 2), loop = False, currently_playing = None,
      song_queue = [], replay = False\<rparr>"

text \<open>
  The voice client of a guild is an object of the chat library; the code reads
  \<open>is_playing()\<close> and \<open>is_paused()\<close> and calls \<open>stop()\<close>, \<open>play()\<close>. Only the state
  of its player is modelled. A guild without a voice client has no entry.
\<close>

datatype player = Stopped | Playing | Paused

text \<open>
  The messages the commands send with \<open>send_and_delete\<close>, one constructor for each
  text of the source (the text is given without its emoji).
\<close>

datatype msg =
    QueueIsEmpty               \<comment> \<open>"The queue is empty."\<close>
  | PositionOutOfRange         \<comment> \<open>"That position is out of range." (skipto)\<close>
  | QueuePositionInvalid       \<comment> \<open>"That queue position is invalid." (bump)\<close>
  | PositionOutOfRangeChoose nat
      \<comment> \<open>"That position is out of range. Please choose a number between 1 and n" (remove)\<close>
  | PositionsOutOfRange        \<comment> \<open>"Positions are out of range." (move)\<close>
  | SkippingAhead int          \<comment> \<open>"Skipping ahead to song number n..."\<close>
  | Bumped string              \<comment> \<open>"Bumped title to the next spot in the queue."\<close>
  | Removed string             \<comment> \<open>"Removed title from the queue."\<close>
  | Moved string int int       \<comment> \<open>"Moved title from position a to b."\<close>
  | NowPlaying string          \<comment> \<open>"Now playing: title"\<close>
  | PlayError                  \<comment> \<open>"An error occurred while trying to play the audio."\<close>
  | QueueFinished              \<comment> \<open>"Queue is empty. Playback finished."\<close>
  | Skipped                    \<comment> \<open>"Skipped the current song."\<close>
  | NoSongPlaying              \<comment> \<open>"No song is currently playing." (skip)\<close>
  | NeedVoiceToPlay            \<comment> \<open>"You need to be in a voice channel to play audio."\<close>
  | NothingToReplay            \<comment> \<open>"There isn't anything currently playing to replay."\<close>
  | NoSongToReplay             \<comment> \<open>"No song is currently playing to replay."\<close>
  | Replaying                  \<comment> \<open>"Replaying..."\<close>
  | VolumeRange                \<comment> \<open>"Volume must be between 0.0 and 2.0!"\<close>
  | VolumeSet pyfloat          \<comment> \<open>"Volume set to v. ..."\<close>
  | LoopingNow bool            \<comment> \<open>"Looping is now enabled." or "... disabled."\<close>

text \<open>The four texts that report a position outside the queue.\<close>

fun out_of_range_msg :: "msg \<Rightarrow> bool" where
  "out_of_range_msg PositionOutOfRange = True"
| "out_of_range_msg QueuePositionInvalid = True"
| "out_of_range_msg (PositionOutOfRangeChoose n) = True"
| "out_of_range_msg PositionsOutOfRange = True"
| "out_of_range_msg _ = False"

text \<open>
  The Python exceptions the modelled code can raise. \<open>KeyError_guild\<close> is
  \<open>bot.guild_settings[ctx.guild.id]\<close> for a guild without settings;
  \<open>DownloadError u\<close> is \<open>extract_info\<close> failing on the url \<open>u\<close>;
  \<open>KeyError_url\<close> is \<open>info['url']\<close> on a result without that key;
  \<open>AttributeError_voice\<close> is \<open>ctx.voice_client.stop()\<close> when there is no voice
  client; \<open>IndexError\<close> is \<open>popleft\<close> on an empty deque; \<open>PlaybackError\<close> is the
  error the backend hands to the \<open>after\<close> callback; \<open>RecursionError\<close> is the
  interpreter refusing a call because its stack has reached the recursion limit.
\<close>

datatype pyexn =
    KeyError_guild
  | DownloadError string
  | KeyError_url
  | AttributeError_voice
  | IndexError
  | PlaybackError
  | RecursionError

text \<open>
  The state the commands share: the settings dictionary of \<open>main.py\<close>, the voice
  client of each guild, and, as observable effects, the messages sent and the
  exceptions written with \<open>logger.error\<close> (oldest first).
\<close>

record bot =
  guild_settings :: "nat \<rightharpoonup> settings"
  voice_client :: "nat \<rightharpoonup> player"
  sent :: "msg list"
  logged :: "pyexn list"

text \<open>What a command reads from its context: the guild, and whether the author is in a voice channel.\<close>

record ctx =
  guild_id :: nat
  author_voice :: bool

text \<open>
  The result of \<open>extract_info\<close> is a dictionary; the code reads the keys \<open>url\<close> and
  \<open>title\<close>. The extraction service itself is outside the repository: it is a
  parameter \<open>ydl\<close> of the model, \<open>None\<close> when the call raises.
\<close>

record info =
  info_url :: "string option"
  info_title :: "string option"

type_synonym resolver = "string \<Rightarrow> info option"

section \<open>Helpers (\<open>utility/helpers.py\<close>)\<close>

text \<open>
  What is outside the model. Sending a message and joining a voice channel are
  calls into the chat library and are taken not to raise; a voice client that
  exists accepts \<open>stop()\<close> and \<open>play()\<close>. After \<open>stop()\<close>, or when a track ends,
  the library calls the \<open>after\<close> callback from its own thread: the model does not
  fire it by itself, a statement about a completion applies \<open>after_song\<close> to the
  state the command left. The handlers of one guild run one after the other;
  interleavings of coroutines are not modelled.
\<close>

text \<open>\<open>send_and_delete\<close>, lines 40 to 75: the message is recorded as sent.\<close>

definition send_and_delete :: "msg \<Rightarrow> bot \<Rightarrow> bot" where
  "send_and_delete m b = b\<lparr>sent := sent b @ [m]\<rparr>"

text \<open>\<open>logger.error(...)\<close>: the exception is recorded as logged.\<close>

definition logger_error :: "pyexn \<Rightarrow> bot \<Rightarrow> bot" where
  "logger_error e b = b\<lparr>logged := logged b @ [e]\<rparr>"

text \<open>
  \<open>ensure_guild_settings\<close>, lines 99 to 131. The \<open>else\<close> branch fills in missing
  keys; a record has all of them, so it changes nothing.
\<close>

definition ensure_guild_settings :: "nat \<Rightarrow> bot \<Rightarrow> bot" where
  "ensure_guild_settings gid b =
     (if guild_settings b gid = None
      then b\<lparr>guild_settings := (guild_settings b)(gid \<mapsto> default_settings)\<rparr>
      else b)"

text \<open>
  An assignment \<open>bot.guild_settings[gid][key] = v\<close> or an in-place change of the
  deque. It is only used where the entry exists (after a lookup that succeeded or
  after \<open>ensure_guild_settings\<close>); a lookup that can fail is written out as a
  \<open>KeyError_guild\<close> branch where it happens.
\<close>

definition update_settings :: "nat \<Rightarrow> (settings \<Rightarrow> settings) \<Rightarrow> bot \<Rightarrow> bot" where
  "update_settings gid f b =
     b\<lparr>guild_settings := (guild_settings b)(gid := map_option f (guild_settings b gid))\<rparr>"

text \<open>\<open>ctx.voice_client and ctx.voice_client.is_playing()\<close>.\<close>

definition is_playing :: "ctx \<Rightarrow> bot \<Rightarrow> bool" where
  "is_playing c b = (voice_client b (guild_id c) = Some Playing)"

text \<open>\<open>ctx.voice_client.stop()\<close> on an existing voice client.\<close>

definition voice_stop :: "ctx \<Rightarrow> bot \<Rightarrow> bot" where
  "voice_stop c b =
     b\<lparr>voice_client := (voice_client b)(guild_id c := map_option (\<lambda>_. Stopped) (voice_client b (guild_id c)))\<rparr>"

text \<open>\<open>ctx.voice_client.play(...)\<close> on an existing voice client.\<close>

definition voice_play :: "ctx \<Rightarrow> bot \<Rightarrow> bot" where
  "voice_play c b =
     b\<lparr>voice_client := (voice_client b)(guild_id c := map_option (\<lambda>_. Playing) (voice_client b (guild_id c)))\<rparr>"

text \<open>\<open>info.get('title', d)\<close>.\<close>

definition get_title :: "info \<Rightarrow> string \<Rightarrow> string" where
  "get_title i d = (case info_title i of None \<Rightarrow> d | Some t \<Rightarrow> t)"

text \<open>
  The \<open>try\<close> block of \<open>play_next_in_queue\<close> (lines 150 to 176) for the entry
  \<open>(title, video_url)\<close> just popped: \<open>Inr\<close> is the state when the block ends
  normally, \<open>Inl (e, b')\<close> the exception raised and the state at that moment. The
  now-playing slot is written before the voice client is used, so a missing voice
  client fails after that write.
\<close>

definition play_attempt :: "resolver \<Rightarrow> ctx \<Rightarrow> string \<Rightarrow> string \<Rightarrow> bot \<Rightarrow> (pyexn \<times> bot) + bot" where
  "play_attempt ydl c title video_url b =
     (case ydl video_url of
        None \<Rightarrow> Inl (DownloadError video_url, b)
      | Some i \<Rightarrow>
          (case info_url i of
             None \<Rightarrow> Inl (KeyError_url, b)
           | Some audio_url \<Rightarrow>
               (let title' = get_title i title;
                    b1 = ensure_guild_settings (guild_id c) b;
                    b2 = update_settings (guild_id c)
                           (\<lambda>s. s\<lparr>currently_playing := Some (title', video_url)\<rparr>) b1;
                    b3 = send_and_delete (NowPlaying title') b2
                in (case voice_client b3 (guild_id c) of
                      None \<Rightarrow> Inl (AttributeError_voice, b3)
                    | Some p \<Rightarrow> Inr (voice_play c (voice_stop c b3))))))"

text \<open>The length of the guild's queue, the measure of the recursion below.\<close>

definition queue_length :: "ctx \<Rightarrow> bot \<Rightarrow> nat" where
  "queue_length c b =
     (case guild_settings b (guild_id c) of None \<Rightarrow> 0 | Some s \<Rightarrow> length (song_queue s))"

lemma queue_length_send [simp]: "queue_length c (send_and_delete m b) = queue_length c b"
  by (simp add: queue_length_def send_and_delete_def)

lemma queue_length_log [simp]: "queue_length c (logger_error e b) = queue_length c b"
  by (simp add: queue_length_def logger_error_def)

lemma queue_length_attempt:
  "play_attempt ydl c t u b = Inl (e, b') \<Longrightarrow> queue_length c b' = queue_length c b"
  by (auto simp: play_attempt_def queue_length_def Let_def ensure_guild_settings_def
        update_settings_def send_and_delete_def default_settings_def
      split: option.splits if_splits)

text \<open>
  \<open>play_next_in_queue\<close>, lines 134 to 184. The \<open>except\<close> handler logs, sends the
  error message and awaits the function again (line 181) on the state the failed
  attempt left. That call is nested in the handler, so every retry is one more
  activation on the interpreter's stack, which Python bounds
  (\<open>sys.getrecursionlimit()\<close>, 1000 by default, the frames of the caller and of
  the library included). The parameter \<open>d\<close> is the number of nested activations
  the stack still has room for when the function is entered: with \<open>d = 0\<close> the
  call in the handler raises \<open>RecursionError\<close>. It is raised inside the handler,
  so no enclosing \<open>try\<close> catches it and it leaves every activation up to the
  first caller, with the state as the last handler left it. \<open>Inl (e, b')\<close> is
  the exception that leaves the function and the state at that moment.
\<close>

function play_next_in_queue :: "resolver \<Rightarrow> nat \<Rightarrow> ctx \<Rightarrow> bot \<Rightarrow> (pyexn \<times> bot) + bot" where
  "play_next_in_queue ydl d c b =
     (case guild_settings b (guild_id c) of
        None \<Rightarrow> Inl (KeyError_guild, b)
      | Some s \<Rightarrow>
          (case song_queue s of
             [] \<Rightarrow>
               Inr (update_settings (guild_id c) (\<lambda>s. s\<lparr>currently_playing := None\<rparr>)
                      (send_and_delete QueueFinished b))
           | (title, video_url) # rest \<Rightarrow>
               (case play_attempt ydl c title video_url
                       (update_settings (guild_id c) (\<lambda>s. s\<lparr>song_queue := rest\<rparr>) b) of
                  Inr b' \<Rightarrow> Inr b'
                | Inl (e, b') \<Rightarrow>
                    if d = 0
                    then Inl (RecursionError, send_and_delete PlayError (logger_error e b'))
                    else play_next_in_queue ydl (d - 1) c
                           (send_and_delete PlayError (logger_error e b')))))"
  by pat_completeness auto
termination
  apply (relation "measure (\<lambda>(ydl, d, c, b). queue_length c b)")
   apply simp
  apply clarsimp
  apply (frule queue_length_attempt)
  apply (simp add: queue_length_def update_settings_def)
  done

declare play_next_in_queue.simps [simp del]

text \<open>
  The body of \<open>after_song\<close> before the last line (lines 200 to 207): the error is
  logged, and with loop mode on the now-playing song goes back to the front of the
  queue. A tuple is always truthy, so the test on \<open>currently_playing\<close> is a test
  for \<open>None\<close>.
\<close>

definition after_song_requeue :: "ctx \<Rightarrow> pyexn option \<Rightarrow> bot \<Rightarrow> pyexn + bot" where
  "after_song_requeue c error b =
     (let b1 = (case error of None \<Rightarrow> b | Some e \<Rightarrow> logger_error e b)
      in case guild_settings b1 (guild_id c) of
           None \<Rightarrow> Inl KeyError_guild
         | Some s \<Rightarrow>
             if loop s
             then (case currently_playing s of
                     None \<Rightarrow> Inr b1
                   | Some (title, url) \<Rightarrow>
                       Inr (update_settings (guild_id c)
                             (\<lambda>s. s\<lparr>song_queue := (title, url) # song_queue s\<rparr>) b1))
             else Inr b1)"

text \<open>
  \<open>after_song\<close>, lines 186 to 209: the body above, then the coroutine
  \<open>play_next_in_queue\<close> handed to the event loop, here run at once, with the
  room \<open>d\<close> the stack has there.
\<close>

definition after_song :: "resolver \<Rightarrow> nat \<Rightarrow> ctx \<Rightarrow> pyexn option \<Rightarrow> bot \<Rightarrow> (pyexn \<times> bot) + bot" where
  "after_song ydl d c error b =
     (case after_song_requeue c error b of
        Inl e \<Rightarrow> Inl (e, case error of None \<Rightarrow> b | Some x \<Rightarrow> logger_error x b)
      | Inr b1 \<Rightarrow> play_next_in_queue ydl d c b1)"

section \<open>Python lists and deques\<close>

text \<open>
  A Python index into a sequence of \<open>n\<close> elements: from \<open>-n\<close> to \<open>-1\<close> it counts
  from the end; outside \<open>-n\<close> to \<open>n - 1\<close> it is an \<open>IndexError\<close>, here \<open>None\<close>.
\<close>

definition py_index :: "nat \<Rightarrow> int \<Rightarrow> nat option" where
  "py_index n i =
     (if 0 \<le> i \<and> i < int n then Some (nat i)
      else if - int n \<le> i \<and> i < 0 then Some (nat (int n + i))
      else None)"

text \<open>\<open>xs.pop(i)\<close>: the element removed and the list left.\<close>

definition list_pop :: "'a list \<Rightarrow> int \<Rightarrow> ('a \<times> 'a list) option" where
  "list_pop xs i =
     (case py_index (length xs) i of
        None \<Rightarrow> None
      | Some j \<Rightarrow> Some (xs ! j, take j xs @ drop (Suc j) xs))"

text \<open>\<open>xs.insert(i, x)\<close>: an index outside the list is clamped to its ends.\<close>

definition list_insert :: "'a list \<Rightarrow> int \<Rightarrow> 'a \<Rightarrow> 'a list" where
  "list_insert xs i x =
     (let n = int (length xs); j = (if i < 0 then max 0 (n + i) else min i n)
      in take (nat j) xs @ [x] @ drop (nat j) xs)"

text \<open>\<open>for _ in range(k): q.popleft()\<close>; \<open>None\<close> for \<open>IndexError\<close> on an empty deque.\<close>

fun popleft_times :: "nat \<Rightarrow> 'a list \<Rightarrow> 'a list option" where
  "popleft_times 0 q = Some q"
| "popleft_times (Suc k) [] = None"
| "popleft_times (Suc k) (x # q) = popleft_times k q"

section \<open>Queue commands (\<open>cogs/music_queue.py\<close>)\<close>

text \<open>
  A command returns \<open>Inr\<close> of the new state, or \<open>Inl\<close> of the exception that leaves
  the handler; where that can happen, nothing has been written before it.
\<close>


text \<open>
  \<open>skip_to\<close>, lines 63 to 92; \<open>d\<close> is the room of the stack where it calls
  \<open>play_next_in_queue\<close>. An exception leaves the handler with the state as it is
  then.
\<close>

definition skip_to :: "resolver \<Rightarrow> nat \<Rightarrow> ctx \<Rightarrow> int \<Rightarrow> bot \<Rightarrow> (pyexn \<times> bot) + bot" where
  "skip_to ydl d c position b =
     (case guild_settings b (guild_id c) of
        None \<Rightarrow> Inl (KeyError_guild, b)
      | Some s \<Rightarrow>
          if song_queue s = [] then Inr (send_and_delete QueueIsEmpty b)
          else if position < 1 \<or> position > int (length (song_queue s))
          then Inr (send_and_delete PositionOutOfRange b)
          else (case popleft_times (nat (position - 1)) (song_queue s) of
                  None \<Rightarrow> Inl (IndexError, b)
                | Some q \<Rightarrow>
                    (let b1 = update_settings (guild_id c) (\<lambda>s. s\<lparr>song_queue := q\<rparr>) b;
                         b2 = send_and_delete (SkippingAhead position) b1
                     in if is_playing c b2 then Inr (voice_stop c b2)
                        else play_next_in_queue ydl d c b2)))"

text \<open>
  \<open>bump\<close>, lines 94 to 129. The first test also covers a guild without settings,
  so no lookup fails.
\<close>

definition bump :: "ctx \<Rightarrow> int \<Rightarrow> bot \<Rightarrow> pyexn + bot" where
  "bump c position b =
     (case guild_settings b (guild_id c) of
        None \<Rightarrow> Inr (send_and_delete QueueIsEmpty b)
      | Some s \<Rightarrow>
          if song_queue s = [] then Inr (send_and_delete QueueIsEmpty b)
          else (let queue = song_queue s
                in if \<not> (1 \<le> position \<and> position \<le> int (length queue))
                   then Inr (send_and_delete QueuePositionInvalid b)
                   else (case list_pop queue (position - 1) of
                           None \<Rightarrow> Inl IndexError
                         | Some (bumped_song, songs_list) \<Rightarrow>
                             Inr (send_and_delete (Bumped (fst bumped_song))
                                   (update_settings (guild_id c)
                                     (\<lambda>s. s\<lparr>song_queue := list_insert songs_list 0 bumped_song\<rparr>)
                                     b)))))"

text \<open>\<open>remove\<close>, lines 131 to 154.\<close>

definition remove :: "ctx \<Rightarrow> int \<Rightarrow> bot \<Rightarrow> pyexn + bot" where
  "remove c position b =
     (case guild_settings b (guild_id c) of
        None \<Rightarrow> Inl KeyError_guild
      | Some s \<Rightarrow>
          if position < 1 \<or> position > int (length (song_queue s))
          then Inr (send_and_delete (PositionOutOfRangeChoose (length (song_queue s))) b)
          else (case list_pop (song_queue s) (position - 1) of
                  None \<Rightarrow> Inl IndexError
                | Some (removed_song, songs_list) \<Rightarrow>
                    Inr (send_and_delete (Removed (fst removed_song))
                          (update_settings (guild_id c)
                            (\<lambda>s. s\<lparr>song_queue := songs_list\<rparr>) b))))"

text \<open>\<open>move\<close>, lines 156 to 181.\<close>

definition move :: "ctx \<Rightarrow> int \<Rightarrow> int \<Rightarrow> bot \<Rightarrow> pyexn + bot" where
  "move c from_pos to_pos b =
     (case guild_settings b (guild_id c) of
        None \<Rightarrow> Inl KeyError_guild
      | Some s \<Rightarrow>
          if (from_pos < 1 \<or> from_pos > int (length (song_queue s)))
             \<or> (to_pos < 1 \<or> to_pos > int (length (song_queue s)))
          then Inr (send_and_delete PositionsOutOfRange b)
          else (case list_pop (song_queue s) (from_pos - 1) of
                  None \<Rightarrow> Inl IndexError
                | Some (song, songs_list) \<Rightarrow>
                    Inr (send_and_delete (Moved (fst song) from_pos to_pos)
                          (update_settings (guild_id c)
                            (\<lambda>s. s\<lparr>song_queue := list_insert songs_list (to_pos - 1) song\<rparr>)
                            b))))"

section \<open>Main commands (\<open>cogs/music_main.py\<close>)\<close>

text \<open>\<open>await ctx.author.voice.channel.connect()\<close>: the guild gets a voice client that plays nothing.\<close>

definition connect :: "ctx \<Rightarrow> bot \<Rightarrow> bot" where
  "connect c b = b\<lparr>voice_client := (voice_client b)(guild_id c \<mapsto> Stopped)\<rparr>"

text \<open>
  \<open>play\<close>, lines 47 to 96. Every exception of the \<open>try\<close> block is caught, logged
  and answered with the error message; the now-playing slot is written only after
  the extraction has returned a result with a \<open>url\<close>.
\<close>

definition play :: "resolver \<Rightarrow> ctx \<Rightarrow> string \<Rightarrow> bot \<Rightarrow> bot" where
  "play ydl c url b =
     (if voice_client b (guild_id c) = None \<and> \<not> author_voice c
      then send_and_delete NeedVoiceToPlay b
      else (let b0 = (if voice_client b (guild_id c) = None then connect c b else b);
                b1 = ensure_guild_settings (guild_id c) b0
            in case ydl url of
                 None \<Rightarrow> send_and_delete PlayError (logger_error (DownloadError url) b1)
               | Some i \<Rightarrow>
                   (case info_url i of
                      None \<Rightarrow> send_and_delete PlayError (logger_error KeyError_url b1)
                    | Some audio_url \<Rightarrow>
                        (let title = get_title i ''Unknown Title'';
                             b2 = update_settings (guild_id c)
                                    (\<lambda>s. s\<lparr>currently_playing := Some (title, url)\<rparr>) b1;
                             b3 = voice_stop c b2;
                             b4 = send_and_delete (NowPlaying title) b3
                         in voice_play c b4))))"

text \<open>The now-playing slot of a guild; a guild without settings plays nothing.\<close>

definition current_of :: "ctx \<Rightarrow> bot \<Rightarrow> song option" where
  "current_of c b =
     (case guild_settings b (guild_id c) of None \<Rightarrow> None | Some s \<Rightarrow> currently_playing s)"

text \<open>The queue of a guild; a guild without settings has none, read as empty.\<close>

definition queue_of :: "ctx \<Rightarrow> bot \<Rightarrow> song list" where
  "queue_of c b =
     (case guild_settings b (guild_id c) of None \<Rightarrow> [] | Some s \<Rightarrow> song_queue s)"

text \<open>\<open>replay\<close>, lines 225 to 253.\<close>

definition replay_cmd :: "ctx \<Rightarrow> bot \<Rightarrow> bot" where
  "replay_cmd c b =
     (let b1 = ensure_guild_settings (guild_id c) b
      in if \<not> is_playing c b1 then send_and_delete NothingToReplay b1
         else (case current_of c b1 of
                 None \<Rightarrow> send_and_delete NoSongToReplay b1
               | Some current \<Rightarrow>
                   send_and_delete Replaying
                     (voice_stop c
                       (update_settings (guild_id c)
                         (\<lambda>s. s\<lparr>song_queue := current # song_queue s\<rparr>) b1))))"

section \<open>Control commands (\<open>cogs/music_control.py\<close>)\<close>

text \<open>\<open>volume\<close>, lines 56 to 74.\<close>

definition volume_cmd :: "ctx \<Rightarrow> pyfloat \<Rightarrow> bot \<Rightarrow> bot" where
  "volume_cmd c vol b =
     (if \<not> float_truthy vol \<or> float_less vol (Fin 0) \<or> float_less (Fin 2) vol
      then send_and_delete VolumeRange b
      else send_and_delete (VolumeSet vol)
             (update_settings (guild_id c) (\<lambda>s. s\<lparr>volume := vol\<rparr>)
               (ensure_guild_settings (guild_id c) b)))"

text \<open>\<open>loop_track\<close>, lines 76 to 91.\<close>

definition loop_track :: "ctx \<Rightarrow> bot \<Rightarrow> bot" where
  "loop_track c b =
     (let b1 = ensure_guild_settings (guild_id c) b;
          b2 = update_settings (guild_id c) (\<lambda>s. s\<lparr>loop := \<not> loop s\<rparr>) b1
      in send_and_delete
           (LoopingNow (case guild_settings b2 (guild_id c) of None \<Rightarrow> False | Some s \<Rightarrow> loop s))
           b2)"

section \<open>Auxiliary notions for the statements\<close>

text \<open>
  The extraction of \<open>u\<close> gives what \<open>play_next_in_queue\<close> and \<open>play\<close> need: the call
  returns and the result has the key \<open>url\<close>.
\<close>

definition resolves :: "resolver \<Rightarrow> string \<Rightarrow> bool" where
  "resolves ydl u = (case ydl u of None \<Rightarrow> False | Some i \<Rightarrow> info_url i \<noteq> None)"

text \<open>The exception the \<open>try\<close> block raises when the extraction of \<open>u\<close> does not resolve.\<close>

definition resolve_error :: "resolver \<Rightarrow> string \<Rightarrow> pyexn" where
  "resolve_error ydl u = (case ydl u of None \<Rightarrow> DownloadError u | Some i \<Rightarrow> KeyError_url)"

text \<open>Concrete inputs for the examples: a context, a one-guild state, two extraction services.\<close>

definition guild0 :: ctx where
  "guild0 = \<lparr>guild_id = 0, author_voice = True\<rparr>"

definition bot_with :: "settings \<Rightarrow> player option \<Rightarrow> bot" where
  "bot_with s p =
     \<lparr>guild_settings = [0 \<mapsto> s],
      voice_client = (case p of None \<Rightarrow> Map.empty | Some v \<Rightarrow> [0 \<mapsto> v]),
      sent = [], logged = []\<rparr>"

definition fresh_bot :: bot where
  "fresh_bot = \<lparr>guild_settings = Map.empty, voice_client = Map.empty, sent = [], logged = []\<rparr>"

text \<open>Every url resolves except \<open>bad\<close>; no title is reported.\<close>

definition ydl_ex :: resolver where
  "ydl_ex u =
     (if u = ''bad'' then None
      else Some \<lparr>info_url = Some (''stream:'' @ u), info_title = None\<rparr>)"

text \<open>Every url resolves except \<open>bad\<close>, with the title \<open>Official\<close>.\<close>

definition ydl_retitle :: resolver where
  "ydl_retitle u =
     (if u = ''bad'' then None
      else Some \<lparr>info_url = Some (''stream:'' @ u), info_title = Some ''Official''\<rparr>)"

section \<open>Basic facts\<close>

text \<open>Messages and log lines leave the queue and the now-playing slot alone.\<close>

lemma queue_of_send [simp]: "queue_of c (send_and_delete m b) = queue_of c b"
  by (simp add: queue_of_def send_and_delete_def)

lemma current_of_send [simp]: "current_of c (send_and_delete m b) = current_of c b"
  by (simp add: current_of_def send_and_delete_def)

lemma queue_of_log [simp]: "queue_of c (logger_error e b) = queue_of c b"
  by (simp add: queue_of_def logger_error_def)

lemma current_of_log [simp]: "current_of c (logger_error e b) = current_of c b"
  by (simp add: current_of_def logger_error_def)

text \<open>
  The \<open>try\<close> block: it fails before any write when the url does not resolve, a
  failure never touches the queue or the log, and a success writes the now-playing
  slot, sends the message and starts the voice client.
\<close>

lemma play_attempt_fails:
  assumes "\<not> resolves ydl u"
  shows "play_attempt ydl c t u b = Inl (resolve_error ydl u, b)"
  using assms by (simp add: play_attempt_def resolves_def resolve_error_def split: option.splits)

lemma play_attempt_Inl:
  assumes "play_attempt ydl c t u b = Inl (e, b1)" and "guild_settings b (guild_id c) = Some s"
  shows "\<exists>s1. guild_settings b1 (guild_id c) = Some s1 \<and> song_queue s1 = song_queue s
           \<and> logged b1 = logged b \<and> voice_client b1 = voice_client b"
  using assms
  by (auto simp: play_attempt_def Let_def ensure_guild_settings_def update_settings_def
        send_and_delete_def split: option.splits)

lemma play_attempt_Inr:
  assumes "play_attempt ydl c t u b = Inr b1" and "guild_settings b (guild_id c) = Some s"
  shows "\<exists>i. ydl u = Some i \<and> info_url i \<noteq> None
           \<and> guild_settings b1 = (guild_settings b)(guild_id c \<mapsto> s\<lparr>currently_playing := Some (get_title i t, u)\<rparr>)
           \<and> logged b1 = logged b \<and> sent b1 = sent b @ [NowPlaying (get_title i t)]
           \<and> voice_client b1 = (voice_client b)(guild_id c \<mapsto> Playing)"
  using assms
  by (auto simp: play_attempt_def Let_def ensure_guild_settings_def update_settings_def
        send_and_delete_def voice_play_def voice_stop_def split: option.splits)

lemma play_attempt_ok:
  assumes "ydl u = Some i" and "info_url i = Some a" and "guild_settings b (guild_id c) = Some s"
    and "voice_client b (guild_id c) = Some p"
  shows "play_attempt ydl c t u b =
           Inr (b\<lparr>guild_settings := (guild_settings b)(guild_id c \<mapsto> s\<lparr>currently_playing := Some (get_title i t, u)\<rparr>),
                  sent := sent b @ [NowPlaying (get_title i t)],
                  voice_client := (voice_client b)(guild_id c \<mapsto> Playing)\<rparr>)"
  using assms
  by (simp add: play_attempt_def Let_def ensure_guild_settings_def update_settings_def
        send_and_delete_def voice_play_def voice_stop_def)

text \<open>One unfolding of \<open>play_next_in_queue\<close> for each way its first attempt can go.\<close>

lemma pniq_no_settings:
  "guild_settings b (guild_id c) = None \<Longrightarrow> play_next_in_queue ydl d c b = Inl (KeyError_guild, b)"
  by (simp add: play_next_in_queue.simps)

lemma pniq_empty:
  assumes "guild_settings b (guild_id c) = Some s" and "song_queue s = []"
  shows "play_next_in_queue ydl d c b =
           Inr (update_settings (guild_id c) (\<lambda>s. s\<lparr>currently_playing := None\<rparr>)
                 (send_and_delete QueueFinished b))"
  using assms by (simp add: play_next_in_queue.simps)

lemma pniq_ok:
  assumes "guild_settings b (guild_id c) = Some s" and "song_queue s = (t, u) # rest"
    and "ydl u = Some i" and "info_url i = Some a" and "voice_client b (guild_id c) = Some p"
  shows "play_next_in_queue ydl d c b =
           Inr (b\<lparr>guild_settings := (guild_settings b)(guild_id c \<mapsto>
                     s\<lparr>song_queue := rest, currently_playing := Some (get_title i t, u)\<rparr>),
                  sent := sent b @ [NowPlaying (get_title i t)],
                  voice_client := (voice_client b)(guild_id c \<mapsto> Playing)\<rparr>)"
proof -
  let ?b0 = "update_settings (guild_id c) (\<lambda>s. s\<lparr>song_queue := rest\<rparr>) b"
  have s0: "guild_settings ?b0 (guild_id c) = Some (s\<lparr>song_queue := rest\<rparr>)"
    using assms(1) by (simp add: update_settings_def)
  have v0: "voice_client ?b0 (guild_id c) = Some p"
    using assms(5) by (simp add: update_settings_def)
  have pa: "play_attempt ydl c t u ?b0 =
      Inr (?b0\<lparr>guild_settings := (guild_settings ?b0)(guild_id c \<mapsto>
                 (s\<lparr>song_queue := rest\<rparr>)\<lparr>currently_playing := Some (get_title i t, u)\<rparr>),
               sent := sent ?b0 @ [NowPlaying (get_title i t)],
               voice_client := (voice_client ?b0)(guild_id c \<mapsto> Playing)\<rparr>)"
    using assms(3,4) s0 v0 by (rule play_attempt_ok)
  show ?thesis
    using assms(1,2)
    by (subst play_next_in_queue.simps) (simp add: pa, simp add: update_settings_def)
qed

lemma pniq_step_Inr:
  assumes "guild_settings b (guild_id c) = Some s" and "song_queue s = (t, u) # rest"
    and "play_attempt ydl c t u (update_settings (guild_id c) (\<lambda>s. s\<lparr>song_queue := rest\<rparr>) b) = Inr b1"
  shows "play_next_in_queue ydl d c b = Inr b1"
  using assms by (subst play_next_in_queue.simps) simp

lemma pniq_step_Inl:
  assumes "guild_settings b (guild_id c) = Some s" and "song_queue s = (t, u) # rest"
    and "play_attempt ydl c t u (update_settings (guild_id c) (\<lambda>s. s\<lparr>song_queue := rest\<rparr>) b) = Inl (e, b1)"
    and "0 < d"
  shows "play_next_in_queue ydl d c b =
           play_next_in_queue ydl (d - 1) c (send_and_delete PlayError (logger_error e b1))"
  using assms by (subst play_next_in_queue.simps) simp

lemma pniq_step_full:
  assumes "guild_settings b (guild_id c) = Some s" and "song_queue s = (t, u) # rest"
    and "play_attempt ydl c t u (update_settings (guild_id c) (\<lambda>s. s\<lparr>song_queue := rest\<rparr>) b) = Inl (e, b1)"
  shows "play_next_in_queue ydl 0 c b =
           Inl (RecursionError, send_and_delete PlayError (logger_error e b1))"
  using assms by (subst play_next_in_queue.simps) simp

lemma pniq_skip:
  assumes "guild_settings b (guild_id c) = Some s" and "song_queue s = (t, u) # rest"
    and "\<not> resolves ydl u" and "0 < d"
  shows "play_next_in_queue ydl d c b =
           play_next_in_queue ydl (d - 1) c
             (send_and_delete PlayError (logger_error (resolve_error ydl u)
                (update_settings (guild_id c) (\<lambda>s. s\<lparr>song_queue := rest\<rparr>) b)))"
  using assms(1,2) play_attempt_fails [OF assms(3)] assms(4)
  by (rule pniq_step_Inl)

lemma pniq_skip_full:
  assumes "guild_settings b (guild_id c) = Some s" and "song_queue s = (t, u) # rest"
    and "\<not> resolves ydl u"
  shows "play_next_in_queue ydl 0 c b =
           Inl (RecursionError,
             send_and_delete PlayError (logger_error (resolve_error ydl u)
                (update_settings (guild_id c) (\<lambda>s. s\<lparr>song_queue := rest\<rparr>) b)))"
  using assms(1,2) play_attempt_fails [OF assms(3)]
  by (rule pniq_step_full)

lemma queue_of_update:
  "guild_settings b (guild_id c) = Some s \<Longrightarrow>
   queue_of c (update_settings (guild_id c) f b) = song_queue (f s)"
  by (simp add: queue_of_def update_settings_def)

lemma pniq_ok_obs:
  assumes "guild_settings b (guild_id c) = Some s" and "song_queue s = (t, u) # rest"
    and "ydl u = Some i" and "info_url i = Some a" and "voice_client b (guild_id c) = Some p"
  shows "\<exists>b'. play_next_in_queue ydl d c b = Inr b'
           \<and> current_of c b' = Some (get_title i t, u) \<and> queue_of c b' = rest
           \<and> logged b' = logged b \<and> sent b' = sent b @ [NowPlaying (get_title i t)]
           \<and> voice_client b' (guild_id c) = Some Playing"
proof -
  have "play_next_in_queue ydl d c b =
      Inr (b\<lparr>guild_settings := (guild_settings b)(guild_id c \<mapsto>
                s\<lparr>song_queue := rest, currently_playing := Some (get_title i t, u)\<rparr>),
             sent := sent b @ [NowPlaying (get_title i t)],
             voice_client := (voice_client b)(guild_id c \<mapsto> Playing)\<rparr>)"
    using assms by (rule pniq_ok)
  then show ?thesis
    by (simp add: current_of_def queue_of_def)
qed

lemma pniq_all_fail_one:
  assumes "guild_settings b (guild_id c) = Some s" and "song_queue s = [(t, u)]"
    and "\<not> resolves ydl u" and "0 < d"
  shows "\<exists>b'. play_next_in_queue ydl d c b = Inr b' \<and> current_of c b' = None \<and> queue_of c b' = []
           \<and> logged b' = logged b @ [resolve_error ydl u]"
proof -
  let ?b1 = "send_and_delete PlayError (logger_error (resolve_error ydl u)
               (update_settings (guild_id c) (\<lambda>s. s\<lparr>song_queue := []\<rparr>) b))"
  have q: "song_queue s = (t, u) # []" using assms(2) by simp
  have st: "play_next_in_queue ydl d c b = play_next_in_queue ydl (d - 1) c ?b1"
    using assms(1) q assms(3,4) by (rule pniq_skip)
  have gs: "guild_settings ?b1 (guild_id c) = Some (s\<lparr>song_queue := []\<rparr>)"
    using assms(1) by (simp add: send_and_delete_def logger_error_def update_settings_def)
  have e: "song_queue (s\<lparr>song_queue := []\<rparr>) = []" by simp
  let ?b2 = "update_settings (guild_id c) (\<lambda>s. s\<lparr>currently_playing := None\<rparr>)
               (send_and_delete QueueFinished ?b1)"
  have r: "play_next_in_queue ydl (d - 1) c ?b1 = Inr ?b2"
    using gs e by (rule pniq_empty)
  have gs2: "guild_settings ?b2 (guild_id c) = Some (s\<lparr>song_queue := [], currently_playing := None\<rparr>)"
    using gs by (simp add: update_settings_def send_and_delete_def)
  have "current_of c ?b2 = None" using gs2 by (simp add: current_of_def)
  moreover have "queue_of c ?b2 = []" using gs2 by (simp add: queue_of_def)
  moreover have "logged ?b2 = logged b @ [resolve_error ydl u]"
    by (simp add: update_settings_def send_and_delete_def logger_error_def)
  moreover have "play_next_in_queue ydl d c b = Inr ?b2" using st r by simp
  ultimately show ?thesis by blast
qed

text \<open>With loop mode on, the body of \<open>after_song\<close> puts the song playing back in front.\<close>

lemma requeue_loop:
  assumes "guild_settings b (guild_id c) = Some s" and "loop s" and "currently_playing s = Some T"
  shows "after_song_requeue c error b =
           Inr (update_settings (guild_id c) (\<lambda>s. s\<lparr>song_queue := T # song_queue s\<rparr>)
                 (case error of None \<Rightarrow> b | Some e \<Rightarrow> logger_error e b))"
  using assms
  by (cases T; cases error) (simp_all add: after_song_requeue_def logger_error_def)

text \<open>\<open>play\<close> on a url that does not resolve: only the handler of the \<open>try\<close> block runs.\<close>

lemma play_fails:
  assumes "\<not> resolves ydl url" and "voice_client b (guild_id c) \<noteq> None \<or> author_voice c"
  shows "play ydl c url b =
           send_and_delete PlayError (logger_error (resolve_error ydl url)
             (ensure_guild_settings (guild_id c)
               (if voice_client b (guild_id c) = None then connect c b else b)))"
proof (cases "ydl url")
  case None
  with assms(2) show ?thesis
    by (auto simp: play_def resolve_error_def Let_def)
next
  case (Some i)
  with assms(1) have "info_url i = None" by (simp add: resolves_def)
  with Some assms(2) show ?thesis
    by (auto simp: play_def resolve_error_def Let_def)
qed

lemma current_of_ensure [simp]: "current_of c (ensure_guild_settings (guild_id c) b) = current_of c b"
  by (simp add: current_of_def ensure_guild_settings_def default_settings_def)

lemma queue_of_ensure [simp]: "queue_of c (ensure_guild_settings (guild_id c) b) = queue_of c b"
  by (simp add: queue_of_def ensure_guild_settings_def default_settings_def)

lemma ensure_keeps: "guild_settings b g = Some s \<Longrightarrow> guild_settings (ensure_guild_settings g' b) g = Some s"
  by (auto simp: ensure_guild_settings_def)

text \<open>
  The volume command away from \<open>0.0\<close>: a finite value above \<open>0\<close> and up to \<open>2\<close> is
  stored, a value below \<open>0\<close> or above \<open>2\<close> is refused, and \<open>nan\<close> passes every
  comparison and is stored.
\<close>

lemma volume_in_range:
  assumes "0 < r" and "r \<le> 2"
  shows "\<exists>s. guild_settings (volume_cmd c (Fin r) b) (guild_id c) = Some s \<and> volume s = Fin r"
  using assms
  by (auto simp: volume_cmd_def update_settings_def ensure_guild_settings_def send_and_delete_def)

lemma volume_out_of_range:
  assumes "r < 0 \<or> 2 < r"
  shows "volume_cmd c (Fin r) b = send_and_delete VolumeRange b"
  using assms by (auto simp: volume_cmd_def)

lemma volume_nan: "\<exists>s. guild_settings (volume_cmd c NaN b) (guild_id c) = Some s \<and> volume s = NaN"
  by (auto simp: volume_cmd_def update_settings_def ensure_guild_settings_def send_and_delete_def)

text \<open>
  The two ways \<open>play_next_in_queue\<close> ends when the guild has settings, for every
  room \<open>d\<close> of the stack: it returns after at most \<open>d\<close> failed attempts, or
  \<open>RecursionError\<close> leaves it after \<open>d + 1\<close> failed attempts. Either way one
  exception \<open>es\<close> is logged for each failed attempt, one entry is gone from the
  front of the queue for each attempt, and the attempts are no more than the
  entries the queue had.
\<close>

lemma play_next_in_queue_outcomes:
  assumes "guild_settings b (guild_id c) = Some s"
  shows "\<exists>b' es. logged b' = logged b @ es
           \<and> (play_next_in_queue ydl d c b = Inr b'
                \<and> length es \<le> d
                \<and> length es + (if current_of c b' = None then 0 else 1) \<le> length (song_queue s)
                \<and> queue_of c b' =
                    drop (length es + (if current_of c b' = None then 0 else 1)) (song_queue s)
              \<or> play_next_in_queue ydl d c b = Inl (RecursionError, b')
                \<and> length es = Suc d
                \<and> Suc d \<le> length (song_queue s)
                \<and> queue_of c b' = drop (Suc d) (song_queue s))"
  using assms
proof (induction "song_queue s" arbitrary: b s d)
  case Nil
  let ?b' = "update_settings (guild_id c) (\<lambda>s. s\<lparr>currently_playing := None\<rparr>)
               (send_and_delete QueueFinished b)"
  have e: "song_queue s = []" using Nil(1) by simp
  have r: "play_next_in_queue ydl d c b = Inr ?b'"
    using Nil(2) e by (rule pniq_empty)
  have l: "logged ?b' = logged b @ []"
    by (simp add: update_settings_def send_and_delete_def)
  have cur: "current_of c ?b' = None"
    using Nil(2) by (simp add: update_settings_def send_and_delete_def current_of_def)
  have q: "queue_of c ?b' = []"
    using Nil(2) e by (simp add: update_settings_def send_and_delete_def queue_of_def)
  have "play_next_in_queue ydl d c b = Inr ?b'
          \<and> length ([]::pyexn list) \<le> d
          \<and> length ([]::pyexn list) + (if current_of c ?b' = None then 0 else 1) \<le> length (song_queue s)
          \<and> queue_of c ?b' =
              drop (length ([]::pyexn list) + (if current_of c ?b' = None then 0 else 1)) (song_queue s)"
    using r cur q e by simp
  with l show ?case by blast
next
  case (Cons x rest)
  obtain t u where x: "x = (t, u)" by (cases x)
  let ?b0 = "update_settings (guild_id c) (\<lambda>s. s\<lparr>song_queue := rest\<rparr>) b"
  have q: "song_queue s = (t, u) # rest" using Cons(2) x by simp
  have s0: "guild_settings ?b0 (guild_id c) = Some (s\<lparr>song_queue := rest\<rparr>)"
    using Cons(3) by (simp add: update_settings_def)
  have l0: "logged ?b0 = logged b" by (simp add: update_settings_def)
  show ?case
  proof (cases "play_attempt ydl c t u ?b0")
    case (Inr b1)
    from play_attempt_Inr [OF Inr s0] obtain i where
      gs: "guild_settings b1 = (guild_settings ?b0)(guild_id c \<mapsto>
             (s\<lparr>song_queue := rest\<rparr>)\<lparr>currently_playing := Some (get_title i t, u)\<rparr>)"
      and lg: "logged b1 = logged ?b0"
      by blast
    have r: "play_next_in_queue ydl d c b = Inr b1"
      using Cons(3) q Inr by (rule pniq_step_Inr)
    have l: "logged b1 = logged b @ []" using lg l0 by simp
    have cur: "current_of c b1 = Some (get_title i t, u)"
      using gs by (simp add: current_of_def)
    have qq: "queue_of c b1 = rest"
      using gs by (simp add: queue_of_def)
    have "play_next_in_queue ydl d c b = Inr b1
          \<and> length ([]::pyexn list) \<le> d
          \<and> length ([]::pyexn list) + (if current_of c b1 = None then 0 else 1) \<le> length (song_queue s)
          \<and> queue_of c b1 =
              drop (length ([]::pyexn list) + (if current_of c b1 = None then 0 else 1)) (song_queue s)"
      using r cur qq q by simp
    with l show ?thesis by blast
  next
    case (Inl p)
    obtain e b1 where p: "p = (e, b1)" by (cases p)
    from play_attempt_Inl [OF Inl [unfolded p] s0] obtain s1 where
      s1: "guild_settings b1 (guild_id c) = Some s1" and q1: "song_queue s1 = rest"
      and l1: "logged b1 = logged ?b0"
      by auto
    let ?b2 = "send_and_delete PlayError (logger_error e b1)"
    have s2: "guild_settings ?b2 (guild_id c) = Some s1"
      using s1 by (simp add: send_and_delete_def logger_error_def)
    have l2: "logged ?b2 = logged b @ [e]"
      using l1 l0 by (simp add: send_and_delete_def logger_error_def)
    show ?thesis
    proof (cases "d = 0")
      case True
      have r: "play_next_in_queue ydl 0 c b = Inl (RecursionError, ?b2)"
        using Cons(3) q Inl [unfolded p] by (rule pniq_step_full)
      have qq: "queue_of c ?b2 = rest" using s2 q1 by (simp add: queue_of_def)
      have "play_next_in_queue ydl d c b = Inl (RecursionError, ?b2)
                \<and> length [e] = Suc d
                \<and> Suc d \<le> length (song_queue s)
                \<and> queue_of c ?b2 = drop (Suc d) (song_queue s)"
        using r qq q True by simp
      with l2 show ?thesis by blast
    next
      case False
      then have room: "0 < d" by simp
      have st: "play_next_in_queue ydl d c b = play_next_in_queue ydl (d - 1) c ?b2"
        using Cons(3) q Inl [unfolded p] room by (rule pniq_step_Inl)
      from Cons(1) [OF q1 [symmetric] s2, of "d - 1"] obtain b' es where
        lg: "logged b' = logged ?b2 @ es"
        and alt: "play_next_in_queue ydl (d - 1) c ?b2 = Inr b'
                \<and> length es \<le> d - 1
                \<and> length es + (if current_of c b' = None then 0 else 1) \<le> length (song_queue s1)
                \<and> queue_of c b' =
                    drop (length es + (if current_of c b' = None then 0 else 1)) (song_queue s1)
              \<or> play_next_in_queue ydl (d - 1) c ?b2 = Inl (RecursionError, b')
                \<and> length es = Suc (d - 1)
                \<and> Suc (d - 1) \<le> length (song_queue s1)
                \<and> queue_of c b' = drop (Suc (d - 1)) (song_queue s1)"
        by (elim exE conjE) (rule that)
      have l: "logged b' = logged b @ (e # es)" using lg l2 by simp
      from alt have "play_next_in_queue ydl d c b = Inr b'
                \<and> length (e # es) \<le> d
                \<and> length (e # es) + (if current_of c b' = None then 0 else 1) \<le> length (song_queue s)
                \<and> queue_of c b' =
                    drop (length (e # es) + (if current_of c b' = None then 0 else 1)) (song_queue s)
              \<or> play_next_in_queue ydl d c b = Inl (RecursionError, b')
                \<and> length (e # es) = Suc d
                \<and> Suc d \<le> length (song_queue s)
                \<and> queue_of c b' = drop (Suc d) (song_queue s)"
      proof (elim disjE conjE)
        assume a: "play_next_in_queue ydl (d - 1) c ?b2 = Inr b'" "length es \<le> d - 1"
          "length es + (if current_of c b' = None then 0 else 1) \<le> length (song_queue s1)"
          "queue_of c b' = drop (length es + (if current_of c b' = None then 0 else 1)) (song_queue s1)"
        have "play_next_in_queue ydl d c b = Inr b'" using st a(1) by simp
        moreover have "length (e # es) \<le> d" using a(2) room by simp
        moreover have "length (e # es) + (if current_of c b' = None then 0 else 1) \<le> length (song_queue s)"
          using a(3) q q1 by simp
        moreover have "queue_of c b' =
            drop (length (e # es) + (if current_of c b' = None then 0 else 1)) (song_queue s)"
          using a(4) q q1 by simp
        ultimately show ?thesis by (intro disjI1 conjI)
      next
        assume a: "play_next_in_queue ydl (d - 1) c ?b2 = Inl (RecursionError, b')"
          "length es = Suc (d - 1)" "Suc (d - 1) \<le> length (song_queue s1)"
          "queue_of c b' = drop (Suc (d - 1)) (song_queue s1)"
        have "play_next_in_queue ydl d c b = Inl (RecursionError, b')" using st a(1) by simp
        moreover have "length (e # es) = Suc d" using a(2) room by simp
        moreover have "Suc d \<le> length (song_queue s)" using a(3) q q1 room by simp
        moreover have "queue_of c b' = drop (Suc d) (song_queue s)"
          using a(4) q q1 room by simp
        ultimately show ?thesis by (intro disjI2 conjI)
      qed
      with l show ?thesis by blast
    qed
  qed
qed

text \<open>
  With room for as many nested activations as the queue has entries the function
  returns normally. Nothing is playing at the end exactly when every entry
  failed, and then the queue is empty; an empty queue ends with nothing playing
  and no attempt.
\<close>

lemma play_next_in_queue_enough_room:
  assumes "guild_settings b (guild_id c) = Some s" and "length (song_queue s) \<le> d"
  shows "\<exists>b' es. play_next_in_queue ydl d c b = Inr b'
           \<and> logged b' = logged b @ es
           \<and> length es + (if current_of c b' = None then 0 else 1) \<le> length (song_queue s)
           \<and> queue_of c b' =
               drop (length es + (if current_of c b' = None then 0 else 1)) (song_queue s)
           \<and> (current_of c b' = None) = (length es = length (song_queue s))
           \<and> (song_queue s = [] \<longrightarrow> current_of c b' = None \<and> es = [])"
  using assms
proof (induction "song_queue s" arbitrary: b s d)
  case Nil
  let ?b' = "update_settings (guild_id c) (\<lambda>s. s\<lparr>currently_playing := None\<rparr>)
               (send_and_delete QueueFinished b)"
  have e: "song_queue s = []" using Nil(1) by simp
  have "play_next_in_queue ydl d c b = Inr ?b'"
    using Nil(2) e by (rule pniq_empty)
  moreover have "logged ?b' = logged b @ []"
    by (simp add: update_settings_def send_and_delete_def)
  moreover have cur: "current_of c ?b' = None"
    using Nil(2) by (simp add: update_settings_def send_and_delete_def current_of_def)
  moreover have "queue_of c ?b' = []"
    using Nil(2) e by (simp add: update_settings_def send_and_delete_def queue_of_def)
  ultimately have "play_next_in_queue ydl d c b = Inr ?b'
           \<and> logged ?b' = logged b @ []
           \<and> length ([]::pyexn list) + (if current_of c ?b' = None then 0 else 1) \<le> length (song_queue s)
           \<and> queue_of c ?b' =
               drop (length ([]::pyexn list) + (if current_of c ?b' = None then 0 else 1)) (song_queue s)
           \<and> (current_of c ?b' = None) = (length ([]::pyexn list) = length (song_queue s))
           \<and> (song_queue s = [] \<longrightarrow> current_of c ?b' = None \<and> ([]::pyexn list) = [])"
    using e by simp
  then show ?case by (intro exI)
next
  case (Cons x rest)
  obtain t u where x: "x = (t, u)" by (cases x)
  let ?b0 = "update_settings (guild_id c) (\<lambda>s. s\<lparr>song_queue := rest\<rparr>) b"
  have q: "song_queue s = (t, u) # rest" using Cons(2) x by simp
  have room: "0 < d" and room': "length rest \<le> d - 1" using Cons(4) q by simp_all
  have s0: "guild_settings ?b0 (guild_id c) = Some (s\<lparr>song_queue := rest\<rparr>)"
    using Cons(3) by (simp add: update_settings_def)
  have l0: "logged ?b0 = logged b" by (simp add: update_settings_def)
  show ?case
  proof (cases "play_attempt ydl c t u ?b0")
    case (Inr b1)
    from play_attempt_Inr [OF Inr s0] obtain i where
      gs: "guild_settings b1 = (guild_settings ?b0)(guild_id c \<mapsto>
             (s\<lparr>song_queue := rest\<rparr>)\<lparr>currently_playing := Some (get_title i t, u)\<rparr>)"
      and lg: "logged b1 = logged ?b0"
      by blast
    have "play_next_in_queue ydl d c b = Inr b1"
      using Cons(3) q Inr by (rule pniq_step_Inr)
    moreover have "logged b1 = logged b @ []" using lg l0 by simp
    moreover have "current_of c b1 = Some (get_title i t, u)"
      using gs by (simp add: current_of_def)
    moreover have "queue_of c b1 = rest"
      using gs by (simp add: queue_of_def)
    ultimately have "play_next_in_queue ydl d c b = Inr b1
           \<and> logged b1 = logged b @ []
           \<and> length ([]::pyexn list) + (if current_of c b1 = None then 0 else 1) \<le> length (song_queue s)
           \<and> queue_of c b1 =
               drop (length ([]::pyexn list) + (if current_of c b1 = None then 0 else 1)) (song_queue s)
           \<and> (current_of c b1 = None) = (length ([]::pyexn list) = length (song_queue s))
           \<and> (song_queue s = [] \<longrightarrow> current_of c b1 = None \<and> ([]::pyexn list) = [])"
      using q by simp
    then show ?thesis by (intro exI)
  next
    case (Inl p)
    obtain e b1 where p: "p = (e, b1)" by (cases p)
    from play_attempt_Inl [OF Inl [unfolded p] s0] obtain s1 where
      s1: "guild_settings b1 (guild_id c) = Some s1" and q1: "song_queue s1 = rest"
      and l1: "logged b1 = logged ?b0"
      by auto
    let ?b2 = "send_and_delete PlayError (logger_error e b1)"
    have s2: "guild_settings ?b2 (guild_id c) = Some s1"
      using s1 by (simp add: send_and_delete_def logger_error_def)
    have l2: "logged ?b2 = logged b @ [e]"
      using l1 l0 by (simp add: send_and_delete_def logger_error_def)
    have room1: "length (song_queue s1) \<le> d - 1" using room' q1 by simp
    from Cons(1) [OF q1 [symmetric] s2 room1] obtain b' es where
      r: "play_next_in_queue ydl (d - 1) c ?b2 = Inr b'"
      and lg: "logged b' = logged ?b2 @ es"
      and len: "length es + (if current_of c b' = None then 0 else 1) \<le> length (song_queue s1)"
      and dr: "queue_of c b' =
         drop (length es + (if current_of c b' = None then 0 else 1)) (song_queue s1)"
      and idle: "(current_of c b' = None) = (length es = length (song_queue s1))"
      by (elim exE conjE) (rule that)
    have "play_next_in_queue ydl d c b = play_next_in_queue ydl (d - 1) c ?b2"
      using Cons(3) q Inl [unfolded p] room by (rule pniq_step_Inl)
    then have "play_next_in_queue ydl d c b = Inr b'" using r by simp
    moreover have "logged b' = logged b @ (e # es)" using lg l2 by simp
    moreover have "length (e # es) + (if current_of c b' = None then 0 else 1) \<le> length (song_queue s)"
      using len q q1 by simp
    moreover have "queue_of c b' =
       drop (length (e # es) + (if current_of c b' = None then 0 else 1)) (song_queue s)"
      using dr q q1 by simp
    moreover have "(current_of c b' = None) = (length (e # es) = length (song_queue s))"
      using idle q q1 by simp
    moreover have "song_queue s = [] \<longrightarrow> current_of c b' = None \<and> e # es = []"
      using q by simp
    ultimately have "play_next_in_queue ydl d c b = Inr b'
           \<and> logged b' = logged b @ (e # es)
           \<and> length (e # es) + (if current_of c b' = None then 0 else 1) \<le> length (song_queue s)
           \<and> queue_of c b' =
               drop (length (e # es) + (if current_of c b' = None then 0 else 1)) (song_queue s)
           \<and> (current_of c b' = None) = (length (e # es) = length (song_queue s))
           \<and> (song_queue s = [] \<longrightarrow> current_of c b' = None \<and> e # es = [])"
      by (intro conjI)
    then show ?thesis
      by (intro exI)
  qed
qed

section \<open>Claims\<close>

text \<open>
  C1, as amended. With the queue \<open>[A, B, C, D]\<close>, a voice client that is not playing
  and \<open>B\<close>'s url resolving, \<open>skip_to\<close> with position 2 pops \<open>A\<close> and then
  \<open>play_next_in_queue\<close> pops and starts \<open>B\<close>: the queue left is \<open>[C, D]\<close> and the
  now-playing slot holds \<open>B\<close>'s url with the title the extraction reports (\<open>B\<close>'s
  own title when it reports none). The claim as stated has \<open>C\<close> in the slot; the
  counterexample below finds \<open>B\<close> there.
\<close>

theorem skip_to_second_of_four:
  assumes "guild_settings b (guild_id c) = Some s" and "song_queue s = [A, B, C, D]"
    and "voice_client b (guild_id c) = Some p" and "p \<noteq> Playing"
    and "ydl (snd B) = Some i" and "info_url i = Some a"
  shows "\<exists>b'. skip_to ydl d c 2 b = Inr b'
           \<and> queue_of c b' = [C, D]
           \<and> current_of c b' = Some (get_title i (fst B), snd B)"
proof -
  let ?b2 = "send_and_delete (SkippingAhead 2)
               (update_settings (guild_id c) (\<lambda>s. s\<lparr>song_queue := [B, C, D]\<rparr>) b)"
  have pop: "popleft_times (nat (2 - 1)) [A, B, C, D] = Some [B, C, D]"
    by (simp add: numeral_eq_Suc)
  have idle: "\<not> is_playing c ?b2"
    using assms(3,4) by (simp add: is_playing_def send_and_delete_def update_settings_def)
  have sk: "skip_to ydl d c 2 b = play_next_in_queue ydl d c ?b2"
    using assms(1,2) pop idle by (simp add: skip_to_def Let_def)
  have gs: "guild_settings ?b2 (guild_id c) = Some (s\<lparr>song_queue := [B, C, D]\<rparr>)"
    using assms(1) by (simp add: send_and_delete_def update_settings_def)
  have q: "song_queue (s\<lparr>song_queue := [B, C, D]\<rparr>) = (fst B, snd B) # [C, D]"
    by simp
  have vc: "voice_client ?b2 (guild_id c) = Some p"
    using assms(3) by (simp add: send_and_delete_def update_settings_def)
  have "\<exists>b'. play_next_in_queue ydl d c ?b2 = Inr b'
           \<and> current_of c b' = Some (get_title i (fst B), snd B) \<and> queue_of c b' = [C, D]
           \<and> logged b' = logged ?b2 \<and> sent b' = sent ?b2 @ [NowPlaying (get_title i (fst B))]
           \<and> voice_client b' (guild_id c) = Some Playing"
    using gs q assms(5,6) vc by (rule pniq_ok_obs)
  with sk show ?thesis
    by auto
qed

theorem skip_to_second_of_four_witness:
  "\<exists>b'. skip_to ydl_retitle 900 guild0 2
          (bot_with (default_settings\<lparr>song_queue :=
              [(''A'', ''a''), (''B'', ''b''), (''C'', ''c''), (''D'', ''d'')]\<rparr>) (Some Stopped)) = Inr b'
        \<and> queue_of guild0 b' = [(''C'', ''c''), (''D'', ''d'')]
        \<and> current_of guild0 b' = Some (''Official'', ''b'')"
proof -
  let ?s = "default_settings\<lparr>song_queue :=
              [(''A'', ''a''), (''B'', ''b''), (''C'', ''c''), (''D'', ''d'')]\<rparr>"
  let ?b = "bot_with ?s (Some Stopped)"
  let ?i = "\<lparr>info_url = Some ''stream:b'', info_title = Some ''Official''\<rparr>"
  have h1: "guild_settings ?b (guild_id guild0) = Some ?s" by (simp add: bot_with_def guild0_def)
  have h2: "song_queue ?s = [(''A'', ''a''), (''B'', ''b''), (''C'', ''c''), (''D'', ''d'')]" by simp
  have h3: "voice_client ?b (guild_id guild0) = Some Stopped" by (simp add: bot_with_def guild0_def)
  have h4: "Stopped \<noteq> Playing" by simp
  have h5: "ydl_retitle (snd (''B'', ''b'')) = Some ?i" by (simp add: ydl_retitle_def)
  have h6: "info_url ?i = Some ''stream:b''" by simp
  have "\<exists>b'. skip_to ydl_retitle 900 guild0 2 ?b = Inr b'
           \<and> queue_of guild0 b' = [(''C'', ''c''), (''D'', ''d'')]
           \<and> current_of guild0 b' = Some (get_title ?i (fst (''B'', ''b'')), snd (''B'', ''b''))"
    using h1 h2 h3 h4 h5 h6 by (rule skip_to_second_of_four)
  then show ?thesis
    by (simp add: get_title_def)
qed

theorem skip_to_second_of_four_counterexample:
  "\<exists>b'. skip_to ydl_ex 900 guild0 2
          (bot_with (default_settings\<lparr>song_queue :=
              [(''A'', ''a''), (''B'', ''b''), (''C'', ''c''), (''D'', ''d'')]\<rparr>) (Some Stopped)) = Inr b'
        \<and> queue_of guild0 b' = [(''C'', ''c''), (''D'', ''d'')]
        \<and> current_of guild0 b' = Some (''B'', ''b'')
        \<and> current_of guild0 b' \<noteq> Some (''C'', ''c'')"
proof -
  let ?s = "default_settings\<lparr>song_queue :=
              [(''A'', ''a''), (''B'', ''b''), (''C'', ''c''), (''D'', ''d'')]\<rparr>"
  let ?b = "bot_with ?s (Some Stopped)"
  let ?b2 = "send_and_delete (SkippingAhead 2)
               (update_settings (guild_id guild0) (\<lambda>s. s\<lparr>song_queue :=
                  [(''B'', ''b''), (''C'', ''c''), (''D'', ''d'')]\<rparr>) ?b)"
  let ?i = "\<lparr>info_url = Some ''stream:b'', info_title = None\<rparr>"
  have pop: "popleft_times (nat (2 - 1)) [(''A'', ''a''), (''B'', ''b''), (''C'', ''c''), (''D'', ''d'')]
      = Some [(''B'', ''b''), (''C'', ''c''), (''D'', ''d'')]"
    by (simp add: numeral_eq_Suc)
  have sk: "skip_to ydl_ex 900 guild0 2 ?b = play_next_in_queue ydl_ex 900 guild0 ?b2"
    using pop
    by (simp add: skip_to_def Let_def bot_with_def guild0_def is_playing_def
          send_and_delete_def update_settings_def)
  have gs: "guild_settings ?b2 (guild_id guild0)
      = Some (?s\<lparr>song_queue := [(''B'', ''b''), (''C'', ''c''), (''D'', ''d'')]\<rparr>)"
    by (simp add: bot_with_def guild0_def send_and_delete_def update_settings_def)
  have q: "song_queue (?s\<lparr>song_queue := [(''B'', ''b''), (''C'', ''c''), (''D'', ''d'')]\<rparr>)
      = (''B'', ''b'') # [(''C'', ''c''), (''D'', ''d'')]"
    by simp
  have r: "ydl_ex ''b'' = Some ?i" by (simp add: ydl_ex_def)
  have u: "info_url ?i = Some ''stream:b''" by simp
  have vc: "voice_client ?b2 (guild_id guild0) = Some Stopped"
    by (simp add: bot_with_def guild0_def send_and_delete_def update_settings_def)
  have "\<exists>b'. play_next_in_queue ydl_ex 900 guild0 ?b2 = Inr b'
           \<and> current_of guild0 b' = Some (get_title ?i ''B'', ''b'')
           \<and> queue_of guild0 b' = [(''C'', ''c''), (''D'', ''d'')]
           \<and> logged b' = logged ?b2 \<and> sent b' = sent ?b2 @ [NowPlaying (get_title ?i ''B'')]
           \<and> voice_client b' (guild_id guild0) = Some Playing"
    using gs q r u vc by (rule pniq_ok_obs)
  with sk show ?thesis
    by (auto simp: get_title_def)
qed

text \<open>
  C2. The volume command at \<open>0.0\<close>, the lower end of the documented domain:
  \<open>not vol\<close> holds, so the command answers with the range message and writes
  nothing. (For \<open>0 < vol \<le> 2\<close> it stores the value, below \<open>0\<close> and above \<open>2\<close> it
  refuses: \<open>volume_in_range\<close>, \<open>volume_out_of_range\<close> above.)
\<close>

theorem volume_zero_rejected:
  "volume_cmd c (Fin 0) b = send_and_delete VolumeRange b"
  by (simp add: volume_cmd_def)

theorem volume_zero_rejected_witness:
  "volume_cmd guild0 (Fin 0) (bot_with default_settings None)
     = send_and_delete VolumeRange (bot_with default_settings None)
   \<and> guild_settings (volume_cmd guild0 (Fin 0) (bot_with default_settings None)) 0
       = Some default_settings"
  using volume_zero_rejected [of guild0 "bot_with default_settings None"]
  by (simp add: send_and_delete_def bot_with_def)

text \<open>
  C3, as amended. \<open>play_next_in_queue\<close> takes the entry it starts out of the queue:
  after it starts the head of \<open>(t, u) # rest\<close> the queue is \<open>rest\<close>. The queue can
  still hold the song in the now-playing slot: \<open>replay\<close> puts that song at the
  front of the queue and leaves it now playing, and with loop mode on
  \<open>after_song\<close> puts it at the front before the next song is taken. The
  counterexample is the state after \<open>play\<close> and \<open>replay\<close> on a fresh bot, where
  the song playing is also the one entry of the queue; with loop mode switched on
  before the \<open>replay\<close> this is still so after the completion that follows.
\<close>

theorem now_playing_and_queue:
  assumes "guild_settings b (guild_id c) = Some s"
  shows "(\<forall>t u rest i a p.
            song_queue s = (t, u) # rest \<and> ydl u = Some i \<and> info_url i = Some a
            \<and> voice_client b (guild_id c) = Some p \<longrightarrow>
            (\<exists>b'. play_next_in_queue ydl d c b = Inr b'
                 \<and> current_of c b' = Some (get_title i t, u) \<and> queue_of c b' = rest))
       \<and> (\<forall>T. is_playing c b \<and> currently_playing s = Some T \<longrightarrow>
            current_of c (replay_cmd c b) = Some T
            \<and> queue_of c (replay_cmd c b) = T # song_queue s)
       \<and> (\<forall>T. loop s \<and> currently_playing s = Some T \<longrightarrow>
            (\<exists>b1. after_song_requeue c error b = Inr b1
                 \<and> current_of c b1 = Some T \<and> queue_of c b1 = T # song_queue s))"
proof (intro conjI allI impI)
  fix t u rest i a p
  assume "song_queue s = (t, u) # rest \<and> ydl u = Some i \<and> info_url i = Some a
            \<and> voice_client b (guild_id c) = Some p"
  then have q: "song_queue s = (t, u) # rest" and r: "ydl u = Some i" and u: "info_url i = Some a"
    and v: "voice_client b (guild_id c) = Some p"
    by simp_all
  have "\<exists>b'. play_next_in_queue ydl d c b = Inr b'
           \<and> current_of c b' = Some (get_title i t, u) \<and> queue_of c b' = rest
           \<and> logged b' = logged b \<and> sent b' = sent b @ [NowPlaying (get_title i t)]
           \<and> voice_client b' (guild_id c) = Some Playing"
    using assms q r u v by (rule pniq_ok_obs)
  then show "\<exists>b'. play_next_in_queue ydl d c b = Inr b'
                 \<and> current_of c b' = Some (get_title i t, u) \<and> queue_of c b' = rest"
    by (elim exE conjE) (intro exI conjI)
next
  fix T
  assume h: "is_playing c b \<and> currently_playing s = Some T"
  have e: "ensure_guild_settings (guild_id c) b = b"
    using assms by (simp add: ensure_guild_settings_def)
  have cur: "current_of c b = Some T" using assms h by (simp add: current_of_def)
  have rp: "replay_cmd c b =
      send_and_delete Replaying
        (voice_stop c (update_settings (guild_id c) (\<lambda>s. s\<lparr>song_queue := T # song_queue s\<rparr>) b))"
    using h cur by (simp add: replay_cmd_def e)
  have gs: "guild_settings (replay_cmd c b) (guild_id c) = Some (s\<lparr>song_queue := T # song_queue s\<rparr>)"
    unfolding rp using assms by (simp add: send_and_delete_def voice_stop_def update_settings_def)
  show "current_of c (replay_cmd c b) = Some T"
    using gs h by (simp add: current_of_def)
  show "queue_of c (replay_cmd c b) = T # song_queue s"
    using gs by (simp add: queue_of_def)
next
  fix T
  assume h: "loop s \<and> currently_playing s = Some T"
  let ?b0 = "case error of None \<Rightarrow> b | Some e \<Rightarrow> logger_error e b"
  let ?b1 = "update_settings (guild_id c) (\<lambda>s. s\<lparr>song_queue := T # song_queue s\<rparr>) ?b0"
  from h have l: "loop s" and cp: "currently_playing s = Some T" by simp_all
  have rq: "after_song_requeue c error b = Inr ?b1"
    using assms l cp by (rule requeue_loop)
  have g0: "guild_settings ?b0 (guild_id c) = Some s"
    using assms by (simp add: logger_error_def split: option.split)
  have gs: "guild_settings ?b1 (guild_id c) = Some (s\<lparr>song_queue := T # song_queue s\<rparr>)"
    using g0 by (simp add: update_settings_def)
  have "current_of c ?b1 = Some T" using gs cp by (simp add: current_of_def)
  moreover have "queue_of c ?b1 = T # song_queue s" using gs by (simp add: queue_of_def)
  ultimately show "\<exists>b1. after_song_requeue c error b = Inr b1
                 \<and> current_of c b1 = Some T \<and> queue_of c b1 = T # song_queue s"
    using rq by (intro exI conjI)
qed

theorem now_playing_and_queue_counterexample:
  "current_of guild0 (replay_cmd guild0 (play ydl_ex guild0 ''u'' fresh_bot))
     = Some (''Unknown Title'', ''u'')
   \<and> queue_of guild0 (replay_cmd guild0 (play ydl_ex guild0 ''u'' fresh_bot))
     = [(''Unknown Title'', ''u'')]
   \<and> (''Unknown Title'', ''u'')
       \<in> set (queue_of guild0 (replay_cmd guild0 (play ydl_ex guild0 ''u'' fresh_bot)))
   \<and> (\<exists>b'. after_song ydl_ex 900 guild0 None
              (replay_cmd guild0 (loop_track guild0 (play ydl_ex guild0 ''u'' fresh_bot))) = Inr b'
           \<and> current_of guild0 b' = Some (''Unknown Title'', ''u'')
           \<and> queue_of guild0 b' = [(''Unknown Title'', ''u'')])"
proof -
  let ?T = "(''Unknown Title'', ''u'')"
  let ?i = "\<lparr>info_url = Some ''stream:u'', info_title = None\<rparr>"
  let ?b1 = "play ydl_ex guild0 ''u'' fresh_bot"
  have p: "?b1 = \<lparr>guild_settings = [0 \<mapsto> default_settings\<lparr>currently_playing := Some ?T\<rparr>],
                  voice_client = [0 \<mapsto> Playing],
                  sent = [NowPlaying ''Unknown Title''], logged = []\<rparr>"
    by (simp add: play_def fresh_bot_def guild0_def ydl_ex_def Let_def connect_def
          ensure_guild_settings_def update_settings_def voice_stop_def voice_play_def
          send_and_delete_def get_title_def)
  have r: "replay_cmd guild0 ?b1 =
      \<lparr>guild_settings = [0 \<mapsto> default_settings\<lparr>currently_playing := Some ?T, song_queue := [?T]\<rparr>],
       voice_client = [0 \<mapsto> Stopped],
       sent = [NowPlaying ''Unknown Title'', Replaying], logged = []\<rparr>"
    unfolding p
    by (simp add: replay_cmd_def guild0_def Let_def is_playing_def current_of_def
          ensure_guild_settings_def update_settings_def voice_stop_def
          send_and_delete_def default_settings_def)
  have first: "current_of guild0 (replay_cmd guild0 ?b1) = Some ?T
      \<and> queue_of guild0 (replay_cmd guild0 ?b1) = [?T]
      \<and> ?T \<in> set (queue_of guild0 (replay_cmd guild0 ?b1))"
    unfolding r by (simp add: current_of_def queue_of_def guild0_def)
  let ?s2 = "default_settings\<lparr>loop := True, currently_playing := Some ?T\<rparr>"
  let ?b2 = "\<lparr>guild_settings = [0 \<mapsto> ?s2],
             voice_client = [0 \<mapsto> Playing],
             sent = [NowPlaying ''Unknown Title'', LoopingNow True], logged = []\<rparr>"
  have l: "loop_track guild0 ?b1 = ?b2"
    unfolding p
    by (simp add: loop_track_def guild0_def Let_def ensure_guild_settings_def update_settings_def
          send_and_delete_def default_settings_def)
  let ?s3 = "default_settings\<lparr>loop := True, currently_playing := Some ?T, song_queue := [?T]\<rparr>"
  let ?b3 = "\<lparr>guild_settings = [0 \<mapsto> ?s3],
             voice_client = [0 \<mapsto> Stopped],
             sent = [NowPlaying ''Unknown Title'', LoopingNow True, Replaying], logged = []\<rparr>"
  have r2: "replay_cmd guild0 ?b2 = ?b3"
    by (simp add: replay_cmd_def guild0_def Let_def is_playing_def current_of_def
          ensure_guild_settings_def update_settings_def voice_stop_def
          send_and_delete_def default_settings_def)
  have g3: "guild_settings ?b3 (guild_id guild0) = Some ?s3" by (simp add: guild0_def)
  have l3: "loop ?s3" by simp
  have c3: "currently_playing ?s3 = Some ?T" by simp
  let ?b4 = "update_settings (guild_id guild0) (\<lambda>s. s\<lparr>song_queue := ?T # song_queue s\<rparr>) ?b3"
  have rq: "after_song_requeue guild0 None ?b3 = Inr ?b4"
    using requeue_loop [OF g3 l3 c3, of None] by simp
  have af: "after_song ydl_ex 900 guild0 None ?b3 = play_next_in_queue ydl_ex 900 guild0 ?b4"
    using rq by (simp add: after_song_def)
  have g4: "guild_settings ?b4 (guild_id guild0) = Some (?s3\<lparr>song_queue := [?T, ?T]\<rparr>)"
    by (simp add: update_settings_def guild0_def)
  have q4: "song_queue (?s3\<lparr>song_queue := [?T, ?T]\<rparr>) = (''Unknown Title'', ''u'') # [?T]" by simp
  have y: "ydl_ex ''u'' = Some ?i" by (simp add: ydl_ex_def)
  have u: "info_url ?i = Some ''stream:u''" by simp
  have v4: "voice_client ?b4 (guild_id guild0) = Some Stopped"
    by (simp add: update_settings_def guild0_def)
  have "\<exists>b'. play_next_in_queue ydl_ex 900 guild0 ?b4 = Inr b'
           \<and> current_of guild0 b' = Some (get_title ?i ''Unknown Title'', ''u'')
           \<and> queue_of guild0 b' = [?T]
           \<and> logged b' = logged ?b4
           \<and> sent b' = sent ?b4 @ [NowPlaying (get_title ?i ''Unknown Title'')]
           \<and> voice_client b' (guild_id guild0) = Some Playing"
    using g4 q4 y u v4 by (rule pniq_ok_obs)
  then have second: "\<exists>b'. after_song ydl_ex 900 guild0 None
              (replay_cmd guild0 (loop_track guild0 ?b1)) = Inr b'
           \<and> current_of guild0 b' = Some ?T \<and> queue_of guild0 b' = [?T]"
    unfolding l r2 af by (auto simp: get_title_def)
  from first second show ?thesis by (intro conjI) simp_all
qed

theorem now_playing_and_queue_witness:
  "is_playing guild0
     (bot_with (default_settings\<lparr>loop := True, currently_playing := Some (''T'', ''t''),
                                  song_queue := [(''N'', ''n'')]\<rparr>) (Some Playing))
   \<and> (\<exists>b'. play_next_in_queue ydl_ex 900 guild0
          (bot_with (default_settings\<lparr>loop := True, currently_playing := Some (''T'', ''t''),
                                       song_queue := [(''N'', ''n'')]\<rparr>) (Some Playing)) = Inr b'
        \<and> current_of guild0 b' = Some (''N'', ''n'') \<and> queue_of guild0 b' = [])
   \<and> current_of guild0 (replay_cmd guild0
          (bot_with (default_settings\<lparr>loop := True, currently_playing := Some (''T'', ''t''),
                                       song_queue := [(''N'', ''n'')]\<rparr>) (Some Playing)))
       = Some (''T'', ''t'')
   \<and> queue_of guild0 (replay_cmd guild0
          (bot_with (default_settings\<lparr>loop := True, currently_playing := Some (''T'', ''t''),
                                       song_queue := [(''N'', ''n'')]\<rparr>) (Some Playing)))
       = [(''T'', ''t''), (''N'', ''n'')]
   \<and> (\<exists>b1. after_song_requeue guild0 None
          (bot_with (default_settings\<lparr>loop := True, currently_playing := Some (''T'', ''t''),
                                       song_queue := [(''N'', ''n'')]\<rparr>) (Some Playing)) = Inr b1
        \<and> current_of guild0 b1 = Some (''T'', ''t'')
        \<and> queue_of guild0 b1 = [(''T'', ''t''), (''N'', ''n'')])"
proof -
  let ?s = "default_settings\<lparr>loop := True, currently_playing := Some (''T'', ''t''),
                             song_queue := [(''N'', ''n'')]\<rparr>"
  let ?b = "bot_with ?s (Some Playing)"
  let ?i = "\<lparr>info_url = Some ''stream:n'', info_title = None\<rparr>"
  have h: "guild_settings ?b (guild_id guild0) = Some ?s" by (simp add: bot_with_def guild0_def)
  note th = now_playing_and_queue [OF h, where ydl = ydl_ex and d = 900 and error = None]
  note t1 = th [THEN conjunct1, rule_format]
  note t2 = th [THEN conjunct2, THEN conjunct1, rule_format]
  note t3 = th [THEN conjunct2, THEN conjunct2, rule_format]
  have pl: "is_playing guild0 ?b" by (simp add: is_playing_def bot_with_def guild0_def)
  have a1: "song_queue ?s = (''N'', ''n'') # [] \<and> ydl_ex ''n'' = Some ?i
      \<and> info_url ?i = Some ''stream:n'' \<and> voice_client ?b (guild_id guild0) = Some Playing"
    by (simp add: ydl_ex_def bot_with_def guild0_def)
  have "\<exists>b'. play_next_in_queue ydl_ex 900 guild0 ?b = Inr b'
          \<and> current_of guild0 b' = Some (get_title ?i ''N'', ''n'') \<and> queue_of guild0 b' = []"
    using a1 by (rule t1)
  then have c1: "\<exists>b'. play_next_in_queue ydl_ex 900 guild0 ?b = Inr b'
          \<and> current_of guild0 b' = Some (''N'', ''n'') \<and> queue_of guild0 b' = []"
    by (simp add: get_title_def)
  have a2: "is_playing guild0 ?b \<and> currently_playing ?s = Some (''T'', ''t'')"
    using pl by simp
  have c2: "current_of guild0 (replay_cmd guild0 ?b) = Some (''T'', ''t'')
      \<and> queue_of guild0 (replay_cmd guild0 ?b) = (''T'', ''t'') # song_queue ?s"
    using a2 by (rule t2)
  have a3: "loop ?s \<and> currently_playing ?s = Some (''T'', ''t'')" by simp
  have c3: "\<exists>b1. after_song_requeue guild0 None ?b = Inr b1
          \<and> current_of guild0 b1 = Some (''T'', ''t'')
          \<and> queue_of guild0 b1 = (''T'', ''t'') # song_queue ?s"
    using a3 by (rule t3)
  from pl c1 c2 c3 show ?thesis by simp
qed

text \<open>
  C4, as amended. With a position below 1 or above the length of the queue, \<open>bump\<close>,
  \<open>skip_to\<close>, \<open>remove\<close> and \<open>move\<close> (either position) send one message and change
  nothing else, so the queue is as before. The message reports the position as out
  of range, except that \<open>bump\<close> and \<open>skip_to\<close> on an empty queue report the empty
  queue instead, which is the counterexample to the claim as stated.
\<close>

theorem out_of_range_rejected:
  assumes "guild_settings b (guild_id c) = Some s"
    and "pos < 1 \<or> pos > int (length (song_queue s))"
  shows "bump c pos b =
           Inr (send_and_delete (if song_queue s = [] then QueueIsEmpty else QueuePositionInvalid) b)
       \<and> skip_to ydl d c pos b =
           Inr (send_and_delete (if song_queue s = [] then QueueIsEmpty else PositionOutOfRange) b)
       \<and> remove c pos b =
           Inr (send_and_delete (PositionOutOfRangeChoose (length (song_queue s))) b)
       \<and> move c pos other b = Inr (send_and_delete PositionsOutOfRange b)
       \<and> move c other pos b = Inr (send_and_delete PositionsOutOfRange b)
       \<and> queue_of c (send_and_delete m b) = queue_of c b"
proof (intro conjI)
  show "bump c pos b =
      Inr (send_and_delete (if song_queue s = [] then QueueIsEmpty else QueuePositionInvalid) b)"
    using assms by (auto simp: bump_def Let_def)
  show "skip_to ydl d c pos b =
      Inr (send_and_delete (if song_queue s = [] then QueueIsEmpty else PositionOutOfRange) b)"
    using assms by (auto simp: skip_to_def)
  show "remove c pos b = Inr (send_and_delete (PositionOutOfRangeChoose (length (song_queue s))) b)"
    using assms by (auto simp: remove_def)
  show "move c pos other b = Inr (send_and_delete PositionsOutOfRange b)"
    using assms by (auto simp: move_def)
  show "move c other pos b = Inr (send_and_delete PositionsOutOfRange b)"
    using assms by (auto simp: move_def)
  show "queue_of c (send_and_delete m b) = queue_of c b"
    by simp
qed

theorem out_of_range_rejected_counterexample:
  "skip_to ydl_ex 900 guild0 1 (bot_with default_settings None)
     = Inr (send_and_delete QueueIsEmpty (bot_with default_settings None))
   \<and> bump guild0 1 (bot_with default_settings None)
     = Inr (send_and_delete QueueIsEmpty (bot_with default_settings None))
   \<and> \<not> out_of_range_msg QueueIsEmpty
   \<and> (1::int) > int (length (song_queue default_settings))"
  by (simp add: skip_to_def bump_def bot_with_def guild0_def default_settings_def)

theorem out_of_range_rejected_witness:
  "(5::int) > int (length (song_queue (default_settings\<lparr>song_queue := [(''S1'', ''u1'')]\<rparr>)))
   \<and> bump guild0 5 (bot_with (default_settings\<lparr>song_queue := [(''S1'', ''u1'')]\<rparr>) None)
       = Inr (send_and_delete QueuePositionInvalid
               (bot_with (default_settings\<lparr>song_queue := [(''S1'', ''u1'')]\<rparr>) None))
   \<and> skip_to ydl_ex 900 guild0 5 (bot_with (default_settings\<lparr>song_queue := [(''S1'', ''u1'')]\<rparr>) None)
       = Inr (send_and_delete PositionOutOfRange
               (bot_with (default_settings\<lparr>song_queue := [(''S1'', ''u1'')]\<rparr>) None))
   \<and> remove guild0 5 (bot_with (default_settings\<lparr>song_queue := [(''S1'', ''u1'')]\<rparr>) None)
       = Inr (send_and_delete (PositionOutOfRangeChoose 1)
               (bot_with (default_settings\<lparr>song_queue := [(''S1'', ''u1'')]\<rparr>) None))
   \<and> move guild0 5 1 (bot_with (default_settings\<lparr>song_queue := [(''S1'', ''u1'')]\<rparr>) None)
       = Inr (send_and_delete PositionsOutOfRange
               (bot_with (default_settings\<lparr>song_queue := [(''S1'', ''u1'')]\<rparr>) None))
   \<and> move guild0 1 5 (bot_with (default_settings\<lparr>song_queue := [(''S1'', ''u1'')]\<rparr>) None)
       = Inr (send_and_delete PositionsOutOfRange
               (bot_with (default_settings\<lparr>song_queue := [(''S1'', ''u1'')]\<rparr>) None))
   \<and> queue_of guild0 (send_and_delete PositionsOutOfRange
               (bot_with (default_settings\<lparr>song_queue := [(''S1'', ''u1'')]\<rparr>) None))
       = [(''S1'', ''u1'')]"
proof -
  let ?s = "default_settings\<lparr>song_queue := [(''S1'', ''u1'')]\<rparr>"
  let ?b = "bot_with ?s None"
  have h1: "guild_settings ?b (guild_id guild0) = Some ?s"
    by (simp add: bot_with_def guild0_def)
  have h2: "(5::int) < 1 \<or> 5 > int (length (song_queue ?s))"
    by simp
  have q: "queue_of guild0 ?b = [(''S1'', ''u1'')]"
    by (simp add: queue_of_def bot_with_def guild0_def)
  show ?thesis
    using out_of_range_rejected [OF h1 h2, where ydl = ydl_ex and d = 900 and other = 1 and m = PositionsOutOfRange] q
    by simp
qed

text \<open>
  C5, as amended. With loop mode on and \<open>T\<close> now playing, \<open>after_song\<close> without an
  error puts \<open>T\<close> at the front of the queue and then runs \<open>play_next_in_queue\<close> on
  that state. With the queue otherwise empty: if \<open>T\<close>'s url resolves and there is a
  voice client, \<open>T\<close>'s url is now playing again, with the title the extraction
  reports (\<open>T\<close>'s own when it reports none); if the url does not resolve (and
  the stack has room for the one nested call of the retry), the entry is dropped
  and nothing is playing, which is the counterexample to the claim as stated.
\<close>

theorem loop_cycle:
  assumes "guild_settings b (guild_id c) = Some s" and "loop s" and "currently_playing s = Some T"
  shows "(\<exists>b1. after_song_requeue c None b = Inr b1 \<and> queue_of c b1 = T # song_queue s
              \<and> after_song ydl d c None b = play_next_in_queue ydl d c b1)
       \<and> (\<forall>i a p. song_queue s = [] \<and> ydl (snd T) = Some i \<and> info_url i = Some a
                  \<and> voice_client b (guild_id c) = Some p \<longrightarrow>
             (\<exists>b'. after_song ydl d c None b = Inr b'
                  \<and> current_of c b' = Some (get_title i (fst T), snd T) \<and> queue_of c b' = []))
       \<and> (song_queue s = [] \<and> \<not> resolves ydl (snd T) \<and> 0 < d \<longrightarrow>
             (\<exists>b'. after_song ydl d c None b = Inr b' \<and> current_of c b' = None \<and> queue_of c b' = []))"
proof -
  let ?b1 = "update_settings (guild_id c) (\<lambda>s. s\<lparr>song_queue := T # song_queue s\<rparr>) b"
  have rq: "after_song_requeue c None b = Inr ?b1"
    using requeue_loop [OF assms, of None] by simp
  have gs: "guild_settings ?b1 (guild_id c) = Some (s\<lparr>song_queue := T # song_queue s\<rparr>)"
    using assms(1) by (simp add: update_settings_def)
  have q: "queue_of c ?b1 = T # song_queue s" using gs by (simp add: queue_of_def)
  have af: "after_song ydl d c None b = play_next_in_queue ydl d c ?b1"
    using rq by (simp add: after_song_def)
  have part1: "\<exists>b1. after_song_requeue c None b = Inr b1 \<and> queue_of c b1 = T # song_queue s
              \<and> after_song ydl d c None b = play_next_in_queue ydl d c b1"
    using rq q af by (intro exI conjI)
  have part2: "\<exists>b'. after_song ydl d c None b = Inr b'
                  \<and> current_of c b' = Some (get_title i (fst T), snd T) \<and> queue_of c b' = []"
    if e: "song_queue s = []" and r: "ydl (snd T) = Some i" and u: "info_url i = Some a"
      and v: "voice_client b (guild_id c) = Some p" for i a p
  proof -
    have q1: "song_queue (s\<lparr>song_queue := T # song_queue s\<rparr>) = (fst T, snd T) # []"
      using e by simp
    have vc: "voice_client ?b1 (guild_id c) = Some p" using v by (simp add: update_settings_def)
    have "\<exists>b'. play_next_in_queue ydl d c ?b1 = Inr b'
           \<and> current_of c b' = Some (get_title i (fst T), snd T) \<and> queue_of c b' = []
           \<and> logged b' = logged ?b1 \<and> sent b' = sent ?b1 @ [NowPlaying (get_title i (fst T))]
           \<and> voice_client b' (guild_id c) = Some Playing"
      using gs q1 r u vc by (rule pniq_ok_obs)
    then show ?thesis unfolding af by (elim exE conjE) (intro exI conjI)
  qed
  have part3: "\<exists>b'. after_song ydl d c None b = Inr b' \<and> current_of c b' = None \<and> queue_of c b' = []"
    if e: "song_queue s = []" and nr: "\<not> resolves ydl (snd T)" and room: "0 < d"
  proof -
    have q1: "song_queue (s\<lparr>song_queue := T # song_queue s\<rparr>) = [(fst T, snd T)]"
      using e by simp
    have "\<exists>b'. play_next_in_queue ydl d c ?b1 = Inr b' \<and> current_of c b' = None \<and> queue_of c b' = []
           \<and> logged b' = logged ?b1 @ [resolve_error ydl (snd T)]"
      using gs q1 nr room by (rule pniq_all_fail_one)
    then show ?thesis unfolding af by (elim exE conjE) (intro exI conjI)
  qed
  show ?thesis
  proof (intro conjI allI impI)
    show "\<exists>b1. after_song_requeue c None b = Inr b1 \<and> queue_of c b1 = T # song_queue s
              \<and> after_song ydl d c None b = play_next_in_queue ydl d c b1"
      by (rule part1)
  next
    fix i a p
    assume "song_queue s = [] \<and> ydl (snd T) = Some i \<and> info_url i = Some a
              \<and> voice_client b (guild_id c) = Some p"
    then show "\<exists>b'. after_song ydl d c None b = Inr b'
                  \<and> current_of c b' = Some (get_title i (fst T), snd T) \<and> queue_of c b' = []"
      by (elim conjE) (rule part2)
  next
    assume "song_queue s = [] \<and> \<not> resolves ydl (snd T) \<and> 0 < d"
    then show "\<exists>b'. after_song ydl d c None b = Inr b' \<and> current_of c b' = None \<and> queue_of c b' = []"
      by (elim conjE) (rule part3)
  qed
qed

theorem loop_cycle_witness:
  "loop (default_settings\<lparr>loop := True, currently_playing := Some (''T'', ''t'')\<rparr>)
   \<and> (\<exists>b1. after_song_requeue guild0 None
              (bot_with (default_settings\<lparr>loop := True, currently_playing := Some (''T'', ''t'')\<rparr>)
                 (Some Stopped)) = Inr b1
           \<and> queue_of guild0 b1 = [(''T'', ''t'')])
   \<and> (\<exists>b'. after_song ydl_ex 900 guild0 None
              (bot_with (default_settings\<lparr>loop := True, currently_playing := Some (''T'', ''t'')\<rparr>)
                 (Some Stopped)) = Inr b'
           \<and> current_of guild0 b' = Some (''T'', ''t'') \<and> queue_of guild0 b' = [])"
proof -
  let ?s = "default_settings\<lparr>loop := True, currently_playing := Some (''T'', ''t'')\<rparr>"
  let ?b = "bot_with ?s (Some Stopped)"
  let ?i = "\<lparr>info_url = Some ''stream:t'', info_title = None\<rparr>"
  have h1: "guild_settings ?b (guild_id guild0) = Some ?s" by (simp add: bot_with_def guild0_def)
  have h2: "loop ?s" by simp
  have h3: "currently_playing ?s = Some (''T'', ''t'')" by simp
  have e: "song_queue ?s = []" by (simp add: default_settings_def)
  have r: "ydl_ex (snd (''T'', ''t'')) = Some ?i" by (simp add: ydl_ex_def)
  have u: "info_url ?i = Some ''stream:t''" by simp
  have v: "voice_client ?b (guild_id guild0) = Some Stopped" by (simp add: bot_with_def guild0_def)
  note th = loop_cycle [OF h1 h2 h3, where ydl = ydl_ex and d = 900]
  from th have a: "\<exists>b1. after_song_requeue guild0 None ?b = Inr b1
      \<and> queue_of guild0 b1 = (''T'', ''t'') # song_queue ?s
      \<and> after_song ydl_ex 900 guild0 None ?b = play_next_in_queue ydl_ex 900 guild0 b1"
    by (rule conjunct1)
  from th have "\<forall>i a p. song_queue ?s = [] \<and> ydl_ex (snd (''T'', ''t'')) = Some i \<and> info_url i = Some a
                  \<and> voice_client ?b (guild_id guild0) = Some p \<longrightarrow>
             (\<exists>b'. after_song ydl_ex 900 guild0 None ?b = Inr b'
                  \<and> current_of guild0 b' = Some (get_title i (fst (''T'', ''t'')), snd (''T'', ''t''))
                  \<and> queue_of guild0 b' = [])"
    by (rule conjunct1 [OF conjunct2])
  note imp = this [rule_format]
  have "song_queue ?s = [] \<and> ydl_ex (snd (''T'', ''t'')) = Some ?i \<and> info_url ?i = Some ''stream:t''
                  \<and> voice_client ?b (guild_id guild0) = Some Stopped"
    using e r u v by (intro conjI)
  then have "\<exists>b'. after_song ydl_ex 900 guild0 None ?b = Inr b'
                  \<and> current_of guild0 b' = Some (get_title ?i (fst (''T'', ''t'')), snd (''T'', ''t''))
                  \<and> queue_of guild0 b' = []"
    by (rule imp)
  then have b: "\<exists>b'. after_song ydl_ex 900 guild0 None ?b = Inr b'
           \<and> current_of guild0 b' = Some (''T'', ''t'') \<and> queue_of guild0 b' = []"
    by (simp add: get_title_def)
  from a e have a': "\<exists>b1. after_song_requeue guild0 None ?b = Inr b1 \<and> queue_of guild0 b1 = [(''T'', ''t'')]"
    by auto
  from h2 a' b show ?thesis by (intro conjI)
qed

theorem loop_cycle_counterexample:
  "loop (default_settings\<lparr>loop := True, currently_playing := Some (''T'', ''bad'')\<rparr>)
   \<and> current_of guild0
        (bot_with (default_settings\<lparr>loop := True, currently_playing := Some (''T'', ''bad'')\<rparr>)
           (Some Stopped)) = Some (''T'', ''bad'')
   \<and> queue_of guild0
        (bot_with (default_settings\<lparr>loop := True, currently_playing := Some (''T'', ''bad'')\<rparr>)
           (Some Stopped)) = []
   \<and> (\<exists>b'. after_song ydl_ex 900 guild0 None
              (bot_with (default_settings\<lparr>loop := True, currently_playing := Some (''T'', ''bad'')\<rparr>)
                 (Some Stopped)) = Inr b'
           \<and> current_of guild0 b' = None
           \<and> current_of guild0 b' \<noteq> Some (''T'', ''bad''))"
proof -
  let ?s = "default_settings\<lparr>loop := True, currently_playing := Some (''T'', ''bad'')\<rparr>"
  let ?b = "bot_with ?s (Some Stopped)"
  let ?b1 = "update_settings (guild_id guild0) (\<lambda>s. s\<lparr>song_queue := (''T'', ''bad'') # song_queue s\<rparr>) ?b"
  have h1: "guild_settings ?b (guild_id guild0) = Some ?s" by (simp add: bot_with_def guild0_def)
  have h2: "loop ?s" by simp
  have h3: "currently_playing ?s = Some (''T'', ''bad'')" by simp
  have rq: "after_song_requeue guild0 None ?b = Inr ?b1"
    using requeue_loop [OF h1 h2 h3, of None] by simp
  have af: "after_song ydl_ex 900 guild0 None ?b = play_next_in_queue ydl_ex 900 guild0 ?b1"
    using rq by (simp add: after_song_def)
  have gs: "guild_settings ?b1 (guild_id guild0) = Some (?s\<lparr>song_queue := [(''T'', ''bad'')]\<rparr>)"
    by (simp add: update_settings_def bot_with_def guild0_def default_settings_def)
  have q1: "song_queue (?s\<lparr>song_queue := [(''T'', ''bad'')]\<rparr>) = [(''T'', ''bad'')]" by simp
  have nr: "\<not> resolves ydl_ex ''bad''" by (simp add: resolves_def ydl_ex_def)
  have room: "(0::nat) < 900" by simp
  have "\<exists>b'. play_next_in_queue ydl_ex 900 guild0 ?b1 = Inr b' \<and> current_of guild0 b' = None
           \<and> queue_of guild0 b' = []
           \<and> logged b' = logged ?b1 @ [resolve_error ydl_ex ''bad'']"
    using gs q1 nr room by (rule pniq_all_fail_one)
  then have "\<exists>b'. after_song ydl_ex 900 guild0 None ?b = Inr b' \<and> current_of guild0 b' = None
           \<and> current_of guild0 b' \<noteq> Some (''T'', ''bad'')"
    unfolding af by auto
  moreover have "current_of guild0 ?b = Some (''T'', ''bad'')"
    using h1 by (simp add: current_of_def)
  moreover have "queue_of guild0 ?b = []"
    using h1 by (simp add: queue_of_def default_settings_def)
  ultimately show ?thesis using h2 by (intro conjI)
qed

text \<open>
  C6, as amended. With the queue \<open>[A, B]\<close>, \<open>A\<close>'s url not resolving, \<open>B\<close>'s url
  resolving, a voice client present and room on the stack for the one nested call
  of the retry, \<open>play_next_in_queue\<close> returns normally; the
  exception for \<open>A\<close> is logged and answered with the error message, the queue is
  empty, and the now-playing slot holds \<open>B\<close>'s url with the title the extraction
  reports (\<open>B\<close>'s own title when it reports none). The counterexample to the claim
  as stated is an extraction that reports another title than the queued one.
\<close>

theorem advance_skips_unresolvable:
  assumes "guild_settings b (guild_id c) = Some s" and "song_queue s = [A, B]"
    and "\<not> resolves ydl (snd A)"
    and "ydl (snd B) = Some i" and "info_url i = Some a"
    and "voice_client b (guild_id c) = Some p"
    and "0 < d"
  shows "\<exists>b'. play_next_in_queue ydl d c b = Inr b'
           \<and> current_of c b' = Some (get_title i (fst B), snd B)
           \<and> queue_of c b' = []
           \<and> logged b' = logged b @ [resolve_error ydl (snd A)]
           \<and> sent b' = sent b @ [PlayError, NowPlaying (get_title i (fst B))]"
proof -
  let ?b1 = "send_and_delete PlayError (logger_error (resolve_error ydl (snd A))
               (update_settings (guild_id c) (\<lambda>s. s\<lparr>song_queue := [B]\<rparr>) b))"
  have q: "song_queue s = (fst A, snd A) # [B]" using assms(2) by simp
  have st: "play_next_in_queue ydl d c b = play_next_in_queue ydl (d - 1) c ?b1"
    using assms(1) q assms(3,7) by (rule pniq_skip)
  have gs: "guild_settings ?b1 (guild_id c) = Some (s\<lparr>song_queue := [B]\<rparr>)"
    using assms(1) by (simp add: send_and_delete_def logger_error_def update_settings_def)
  have q1: "song_queue (s\<lparr>song_queue := [B]\<rparr>) = (fst B, snd B) # []" by simp
  have vc: "voice_client ?b1 (guild_id c) = Some p"
    using assms(6) by (simp add: send_and_delete_def logger_error_def update_settings_def)
  have "\<exists>b'. play_next_in_queue ydl (d - 1) c ?b1 = Inr b'
           \<and> current_of c b' = Some (get_title i (fst B), snd B) \<and> queue_of c b' = []
           \<and> logged b' = logged ?b1 \<and> sent b' = sent ?b1 @ [NowPlaying (get_title i (fst B))]
           \<and> voice_client b' (guild_id c) = Some Playing"
    using gs q1 assms(4,5) vc by (rule pniq_ok_obs)
  then obtain b' where r: "play_next_in_queue ydl (d - 1) c ?b1 = Inr b'"
    and cur: "current_of c b' = Some (get_title i (fst B), snd B)" and qe: "queue_of c b' = []"
    and lg: "logged b' = logged ?b1" and sn: "sent b' = sent ?b1 @ [NowPlaying (get_title i (fst B))]"
    by (elim exE conjE) (rule that)
  have "logged b' = logged b @ [resolve_error ydl (snd A)]"
    using lg by (simp add: send_and_delete_def logger_error_def update_settings_def)
  moreover have "sent b' = sent b @ [PlayError, NowPlaying (get_title i (fst B))]"
    using sn by (simp add: send_and_delete_def logger_error_def update_settings_def)
  moreover have "play_next_in_queue ydl d c b = Inr b'" using st r by simp
  ultimately show ?thesis using cur qe by blast
qed

theorem advance_skips_unresolvable_witness:
  "\<not> resolves ydl_ex ''bad''
   \<and> (\<exists>b'. play_next_in_queue ydl_ex 900 guild0
          (bot_with (default_settings\<lparr>song_queue := [(''A'', ''bad''), (''B'', ''good'')]\<rparr>)
             (Some Stopped)) = Inr b'
        \<and> current_of guild0 b' = Some (''B'', ''good'')
        \<and> queue_of guild0 b' = []
        \<and> logged b' = [DownloadError ''bad'']
        \<and> sent b' = [PlayError, NowPlaying ''B''])"
proof -
  let ?s = "default_settings\<lparr>song_queue := [(''A'', ''bad''), (''B'', ''good'')]\<rparr>"
  let ?b = "bot_with ?s (Some Stopped)"
  let ?i = "\<lparr>info_url = Some ''stream:good'', info_title = None\<rparr>"
  have h1: "guild_settings ?b (guild_id guild0) = Some ?s" by (simp add: bot_with_def guild0_def)
  have h2: "song_queue ?s = [(''A'', ''bad''), (''B'', ''good'')]" by simp
  have h3: "\<not> resolves ydl_ex (snd (''A'', ''bad''))" by (simp add: resolves_def ydl_ex_def)
  have h4: "ydl_ex (snd (''B'', ''good'')) = Some ?i" by (simp add: ydl_ex_def)
  have h5: "info_url ?i = Some ''stream:good''" by simp
  have h6: "voice_client ?b (guild_id guild0) = Some Stopped" by (simp add: bot_with_def guild0_def)
  have h7: "(0::nat) < 900" by simp
  have "\<exists>b'. play_next_in_queue ydl_ex 900 guild0 ?b = Inr b'
           \<and> current_of guild0 b' = Some (get_title ?i (fst (''B'', ''good'')), snd (''B'', ''good''))
           \<and> queue_of guild0 b' = []
           \<and> logged b' = logged ?b @ [resolve_error ydl_ex (snd (''A'', ''bad''))]
           \<and> sent b' = sent ?b @ [PlayError, NowPlaying (get_title ?i (fst (''B'', ''good'')))]"
    using h1 h2 h3 h4 h5 h6 h7 by (rule advance_skips_unresolvable)
  then have "\<exists>b'. play_next_in_queue ydl_ex 900 guild0 ?b = Inr b'
        \<and> current_of guild0 b' = Some (''B'', ''good'')
        \<and> queue_of guild0 b' = []
        \<and> logged b' = [DownloadError ''bad'']
        \<and> sent b' = [PlayError, NowPlaying ''B'']"
    by (simp add: get_title_def resolve_error_def ydl_ex_def bot_with_def)
  moreover have "\<not> resolves ydl_ex ''bad''" using h3 by simp
  ultimately show ?thesis by (intro conjI)
qed

theorem advance_skips_unresolvable_counterexample:
  "\<not> resolves ydl_retitle ''bad'' \<and> resolves ydl_retitle ''good''
   \<and> (\<exists>b'. play_next_in_queue ydl_retitle 900 guild0
          (bot_with (default_settings\<lparr>song_queue := [(''A'', ''bad''), (''B'', ''good'')]\<rparr>)
             (Some Stopped)) = Inr b'
        \<and> current_of guild0 b' = Some (''Official'', ''good'')
        \<and> current_of guild0 b' \<noteq> Some (''B'', ''good''))"
proof -
  let ?s = "default_settings\<lparr>song_queue := [(''A'', ''bad''), (''B'', ''good'')]\<rparr>"
  let ?b = "bot_with ?s (Some Stopped)"
  let ?i = "\<lparr>info_url = Some ''stream:good'', info_title = Some ''Official''\<rparr>"
  let ?b1 = "send_and_delete PlayError (logger_error (resolve_error ydl_retitle ''bad'')
               (update_settings (guild_id guild0) (\<lambda>s. s\<lparr>song_queue := [(''B'', ''good'')]\<rparr>) ?b))"
  have h1: "guild_settings ?b (guild_id guild0) = Some ?s" by (simp add: bot_with_def guild0_def)
  have h2: "song_queue ?s = (''A'', ''bad'') # [(''B'', ''good'')]" by simp
  have h3: "\<not> resolves ydl_retitle ''bad''" by (simp add: resolves_def ydl_retitle_def)
  have h3': "resolves ydl_retitle ''good''" by (simp add: resolves_def ydl_retitle_def)
  have room: "(0::nat) < 900" by simp
  have st: "play_next_in_queue ydl_retitle 900 guild0 ?b = play_next_in_queue ydl_retitle (900 - 1) guild0 ?b1"
    using h1 h2 h3 room by (rule pniq_skip)
  have gs: "guild_settings ?b1 (guild_id guild0) = Some (?s\<lparr>song_queue := [(''B'', ''good'')]\<rparr>)"
    by (simp add: bot_with_def guild0_def send_and_delete_def logger_error_def update_settings_def)
  have q1: "song_queue (?s\<lparr>song_queue := [(''B'', ''good'')]\<rparr>) = (''B'', ''good'') # []" by simp
  have h4: "ydl_retitle ''good'' = Some ?i" by (simp add: ydl_retitle_def)
  have h5: "info_url ?i = Some ''stream:good''" by simp
  have vc: "voice_client ?b1 (guild_id guild0) = Some Stopped"
    by (simp add: bot_with_def guild0_def send_and_delete_def logger_error_def update_settings_def)
  have "\<exists>b'. play_next_in_queue ydl_retitle (900 - 1) guild0 ?b1 = Inr b'
           \<and> current_of guild0 b' = Some (get_title ?i ''B'', ''good'') \<and> queue_of guild0 b' = []
           \<and> logged b' = logged ?b1 \<and> sent b' = sent ?b1 @ [NowPlaying (get_title ?i ''B'')]
           \<and> voice_client b' (guild_id guild0) = Some Playing"
    using gs q1 h4 h5 vc by (rule pniq_ok_obs)
  then have "\<exists>b'. play_next_in_queue ydl_retitle 900 guild0 ?b = Inr b'
        \<and> current_of guild0 b' = Some (''Official'', ''good'')
        \<and> current_of guild0 b' \<noteq> Some (''B'', ''good'')"
    unfolding st by (auto simp: get_title_def)
  with h3 h3' show ?thesis by (intro conjI)
qed

text \<open>
  C7, as amended. When the url given to \<open>play\<close> does not resolve (and the command
  gets past the voice check), the exception is logged, the error message is sent,
  and the now-playing slot and the queue of the guild are as before. The state is
  not untouched, though: before the \<open>try\<close> block the command joins the voice
  channel when the guild has no voice client, and creates the default settings
  when the guild has none. Nothing else is written: the result is exactly the old
  state with these two steps, the log line and the message; every settings entry
  and every voice client that existed is unchanged, so a track that is playing is
  not stopped. The counterexample to the claim as stated is a fresh bot, which
  ends with a voice client and a settings entry it did not have.
\<close>

theorem play_resolve_failure:
  assumes "\<not> resolves ydl url" and "voice_client b (guild_id c) \<noteq> None \<or> author_voice c"
  shows "play ydl c url b =
           send_and_delete PlayError (logger_error (resolve_error ydl url)
             (ensure_guild_settings (guild_id c)
               (if voice_client b (guild_id c) = None then connect c b else b)))
       \<and> current_of c (play ydl c url b) = current_of c b
       \<and> queue_of c (play ydl c url b) = queue_of c b
       \<and> guild_settings (play ydl c url b) = guild_settings (ensure_guild_settings (guild_id c) b)
       \<and> (\<forall>g s. guild_settings b g = Some s \<longrightarrow> guild_settings (play ydl c url b) g = Some s)
       \<and> voice_client (play ydl c url b) =
           (if voice_client b (guild_id c) = None
            then (voice_client b)(guild_id c \<mapsto> Stopped) else voice_client b)
       \<and> (\<forall>g p. voice_client b g = Some p \<longrightarrow> voice_client (play ydl c url b) g = Some p)
       \<and> sent (play ydl c url b) = sent b @ [PlayError]
       \<and> logged (play ydl c url b) = logged b @ [resolve_error ydl url]"
proof -
  let ?b0 = "if voice_client b (guild_id c) = None then connect c b else b"
  have p: "play ydl c url b =
      send_and_delete PlayError (logger_error (resolve_error ydl url)
        (ensure_guild_settings (guild_id c) ?b0))"
    using assms by (rule play_fails)
  have g0: "guild_settings ?b0 = guild_settings b" by (simp add: connect_def)
  have c0: "current_of c ?b0 = current_of c b" by (simp add: current_of_def g0)
  have q0: "queue_of c ?b0 = queue_of c b" by (simp add: queue_of_def g0)
  have v: "voice_client (play ydl c url b) =
           (if voice_client b (guild_id c) = None
            then (voice_client b)(guild_id c \<mapsto> Stopped) else voice_client b)"
    unfolding p
    by (auto simp: send_and_delete_def logger_error_def ensure_guild_settings_def connect_def)
  have "current_of c (play ydl c url b) = current_of c b"
    unfolding p using c0 by simp
  moreover have "queue_of c (play ydl c url b) = queue_of c b"
    unfolding p using q0 by simp
  moreover have "guild_settings (play ydl c url b) = guild_settings (ensure_guild_settings (guild_id c) b)"
    unfolding p using g0 by (simp add: send_and_delete_def logger_error_def ensure_guild_settings_def)
  moreover have "\<forall>g s. guild_settings b g = Some s \<longrightarrow> guild_settings (play ydl c url b) g = Some s"
    unfolding p using g0 by (simp add: send_and_delete_def logger_error_def ensure_keeps)
  moreover note v
  moreover have "\<forall>g p. voice_client b g = Some p \<longrightarrow> voice_client (play ydl c url b) g = Some p"
    unfolding v by auto
  moreover have "sent (play ydl c url b) = sent b @ [PlayError]"
    unfolding p
    by (simp add: send_and_delete_def logger_error_def ensure_guild_settings_def connect_def)
  moreover have "logged (play ydl c url b) = logged b @ [resolve_error ydl url]"
    unfolding p
    by (simp add: send_and_delete_def logger_error_def ensure_guild_settings_def connect_def)
  ultimately show ?thesis using p by (intro conjI)
qed

theorem play_resolve_failure_witness:
  "\<not> resolves ydl_ex ''bad''
   \<and> author_voice guild0
   \<and> current_of guild0
       (play ydl_ex guild0 ''bad''
          (bot_with (default_settings\<lparr>currently_playing := Some (''T'', ''t'')\<rparr>) (Some Playing)))
       = Some (''T'', ''t'')
   \<and> voice_client
       (play ydl_ex guild0 ''bad''
          (bot_with (default_settings\<lparr>currently_playing := Some (''T'', ''t'')\<rparr>) (Some Playing))) 0
       = Some Playing
   \<and> guild_settings
       (play ydl_ex guild0 ''bad''
          (bot_with (default_settings\<lparr>currently_playing := Some (''T'', ''t'')\<rparr>) (Some Playing))) 0
       = Some (default_settings\<lparr>currently_playing := Some (''T'', ''t'')\<rparr>)
   \<and> sent (play ydl_ex guild0 ''bad''
          (bot_with (default_settings\<lparr>currently_playing := Some (''T'', ''t'')\<rparr>) (Some Playing)))
       = [PlayError]
   \<and> logged (play ydl_ex guild0 ''bad''
          (bot_with (default_settings\<lparr>currently_playing := Some (''T'', ''t'')\<rparr>) (Some Playing)))
       = [DownloadError ''bad'']"
proof -
  let ?s = "default_settings\<lparr>currently_playing := Some (''T'', ''t'')\<rparr>"
  let ?b = "bot_with ?s (Some Playing)"
  have h1: "\<not> resolves ydl_ex ''bad''" by (simp add: resolves_def ydl_ex_def)
  have h2: "voice_client ?b (guild_id guild0) \<noteq> None \<or> author_voice guild0"
    by (simp add: guild0_def)
  note th = play_resolve_failure [OF h1 h2]
  have t_cur: "current_of guild0 (play ydl_ex guild0 ''bad'' ?b) = current_of guild0 ?b"
    using th by (elim conjE) assumption
  have t_set: "\<forall>g s. guild_settings ?b g = Some s \<longrightarrow>
      guild_settings (play ydl_ex guild0 ''bad'' ?b) g = Some s"
    using th by (elim conjE) assumption
  have t_vc: "\<forall>g p. voice_client ?b g = Some p \<longrightarrow>
      voice_client (play ydl_ex guild0 ''bad'' ?b) g = Some p"
    using th by (elim conjE) assumption
  have t_sent: "sent (play ydl_ex guild0 ''bad'' ?b) = sent ?b @ [PlayError]"
    using th by (elim conjE) assumption
  have t_log: "logged (play ydl_ex guild0 ''bad'' ?b) = logged ?b @ [resolve_error ydl_ex ''bad'']"
    using th by (elim conjE) assumption
  have c0: "current_of guild0 ?b = Some (''T'', ''t'')"
    by (simp add: current_of_def bot_with_def guild0_def)
  have e: "resolve_error ydl_ex ''bad'' = DownloadError ''bad''"
    by (simp add: resolve_error_def ydl_ex_def)
  have a: "author_voice guild0" by (simp add: guild0_def)
  have g: "guild_settings ?b 0 = Some ?s" by (simp add: bot_with_def)
  have v: "voice_client ?b 0 = Some Playing" by (simp add: bot_with_def)
  have "current_of guild0 (play ydl_ex guild0 ''bad'' ?b) = Some (''T'', ''t'')"
    using t_cur c0 by simp
  moreover have "voice_client (play ydl_ex guild0 ''bad'' ?b) 0 = Some Playing"
    using t_vc v by blast
  moreover have "guild_settings (play ydl_ex guild0 ''bad'' ?b) 0 = Some ?s"
    using t_set g by blast
  moreover have "sent (play ydl_ex guild0 ''bad'' ?b) = [PlayError]"
    using t_sent by (simp add: bot_with_def)
  moreover have "logged (play ydl_ex guild0 ''bad'' ?b) = [DownloadError ''bad'']"
    using t_log e by (simp add: bot_with_def)
  ultimately show ?thesis using h1 a by (intro conjI)
qed

theorem play_resolve_failure_counterexample:
  "\<not> resolves ydl_ex ''bad''
   \<and> voice_client fresh_bot 0 = None
   \<and> voice_client (play ydl_ex guild0 ''bad'' fresh_bot) 0 = Some Stopped
   \<and> guild_settings fresh_bot 0 = None
   \<and> guild_settings (play ydl_ex guild0 ''bad'' fresh_bot) 0 = Some default_settings
   \<and> sent (play ydl_ex guild0 ''bad'' fresh_bot) = [PlayError]"
  by (simp add: resolves_def ydl_ex_def play_def fresh_bot_def guild0_def Let_def connect_def
        ensure_guild_settings_def send_and_delete_def logger_error_def)

text \<open>
  C8. The retry of \<open>play_next_in_queue\<close> is a call nested in its \<open>except\<close>
  handler, so every entry that fails in a row costs one more activation on the
  interpreter's stack. With room for \<open>d\<close> nested activations and a queue whose
  first \<open>d + 1\<close> entries do not resolve, the call in the handler of the last of
  them raises \<open>RecursionError\<close>, which leaves the function: the entries after
  these are still in the queue, one exception is logged for each attempt, and the
  now-playing slot is not reset, so the guild does not end in the idle state.
  (The recursion does end in every case, after no more attempts than the queue
  has entries, \<open>play_next_in_queue_outcomes\<close>; and with room for as many
  activations as there are entries it returns with the bounds claimed,
  \<open>play_next_in_queue_enough_room\<close>.) The witness is a queue of 1200 entries
  that do not resolve with room for 987 nested activations, about what the
  default limit of 1000 leaves: 988 attempts are logged and 212 entries stay.
\<close>

theorem play_next_in_queue_recursion_error:
  assumes "guild_settings b (guild_id c) = Some s"
    and "d < length (song_queue s)"
    and "\<forall>x \<in> set (take (Suc d) (song_queue s)). \<not> resolves ydl (snd x)"
  shows "\<exists>b'. play_next_in_queue ydl d c b = Inl (RecursionError, b')
           \<and> queue_of c b' = drop (Suc d) (song_queue s)
           \<and> queue_of c b' = drop (length (logged b') - length (logged b)) (song_queue s)
           \<and> logged b' = logged b @ map (\<lambda>x. resolve_error ydl (snd x)) (take (Suc d) (song_queue s))
           \<and> current_of c b' = currently_playing s
           \<and> voice_client b' = voice_client b"
  using assms
proof (induction d arbitrary: b s)
  case 0
  then obtain t u rest where q: "song_queue s = (t, u) # rest"
    by (cases "song_queue s") auto
  have nr: "\<not> resolves ydl u" using 0(3) q by simp
  let ?b' = "send_and_delete PlayError (logger_error (resolve_error ydl u)
                (update_settings (guild_id c) (\<lambda>s. s\<lparr>song_queue := rest\<rparr>) b))"
  have r: "play_next_in_queue ydl 0 c b = Inl (RecursionError, ?b')"
    using 0(1) q nr by (rule pniq_skip_full)
  have gs: "guild_settings ?b' (guild_id c) = Some (s\<lparr>song_queue := rest\<rparr>)"
    using 0(1) by (simp add: send_and_delete_def logger_error_def update_settings_def)
  have q0: "queue_of c ?b' = drop (Suc 0) (song_queue s)"
    using gs q by (simp add: queue_of_def)
  have lg: "logged ?b' = logged b @ map (\<lambda>x. resolve_error ydl (snd x)) (take (Suc 0) (song_queue s))"
    using q by (simp add: send_and_delete_def logger_error_def update_settings_def)
  have ln: "length (logged ?b') - length (logged b) = Suc 0"
    by (simp add: send_and_delete_def logger_error_def update_settings_def)
  have "queue_of c ?b' = drop (length (logged ?b') - length (logged b)) (song_queue s)"
    unfolding ln by (rule q0)
  moreover note q0 lg
  moreover have "current_of c ?b' = currently_playing s"
    using gs by (simp add: current_of_def)
  moreover have "voice_client ?b' = voice_client b"
    by (simp add: send_and_delete_def logger_error_def update_settings_def)
  ultimately show ?case using r by (intro exI conjI)
next
  case (Suc d)
  then obtain t u rest where q: "song_queue s = (t, u) # rest"
    by (cases "song_queue s") auto
  have nr: "\<not> resolves ydl u" using Suc(4) q by simp
  let ?b1 = "send_and_delete PlayError (logger_error (resolve_error ydl u)
                (update_settings (guild_id c) (\<lambda>s. s\<lparr>song_queue := rest\<rparr>) b))"
  have pos: "0 < Suc d" by simp
  have st: "play_next_in_queue ydl (Suc d) c b = play_next_in_queue ydl (Suc d - 1) c ?b1"
    using Suc(2) q nr pos by (rule pniq_skip)
  have gs: "guild_settings ?b1 (guild_id c) = Some (s\<lparr>song_queue := rest\<rparr>)"
    using Suc(2) by (simp add: send_and_delete_def logger_error_def update_settings_def)
  have len: "d < length (song_queue (s\<lparr>song_queue := rest\<rparr>))" using Suc(3) q by simp
  have bad: "\<forall>x \<in> set (take (Suc d) (song_queue (s\<lparr>song_queue := rest\<rparr>))). \<not> resolves ydl (snd x)"
    using Suc(4) q by simp
  from Suc(1) [OF gs len bad] obtain b' where
    r: "play_next_in_queue ydl d c ?b1 = Inl (RecursionError, b')"
    and qd: "queue_of c b' = drop (Suc d) (song_queue (s\<lparr>song_queue := rest\<rparr>))"
    and lg: "logged b' = logged ?b1 @ map (\<lambda>x. resolve_error ydl (snd x))
                (take (Suc d) (song_queue (s\<lparr>song_queue := rest\<rparr>)))"
    and cur: "current_of c b' = currently_playing (s\<lparr>song_queue := rest\<rparr>)"
    and vc: "voice_client b' = voice_client ?b1"
    by (elim exE conjE) (rule that)
  have "play_next_in_queue ydl (Suc d) c b = Inl (RecursionError, b')"
    using st r by simp
  moreover have q2: "queue_of c b' = drop (Suc (Suc d)) (song_queue s)"
    using qd q by simp
  moreover have lg2: "logged b' = logged b @ map (\<lambda>x. resolve_error ydl (snd x)) (take (Suc (Suc d)) (song_queue s))"
    using lg q by (simp add: send_and_delete_def logger_error_def update_settings_def)
  moreover have "queue_of c b' = drop (length (logged b') - length (logged b)) (song_queue s)"
    using q2 lg2 Suc(3) by simp
  moreover have "current_of c b' = currently_playing s" using cur by simp
  moreover have "voice_client b' = voice_client b"
    using vc by (simp add: send_and_delete_def logger_error_def update_settings_def)
  ultimately show ?case by (intro exI conjI)
qed

theorem play_next_in_queue_recursion_error_witness:
  "guild_settings
     (bot_with (default_settings\<lparr>currently_playing := Some (''T'', ''t''),
                                  song_queue := replicate 1200 (''X'', ''bad'')\<rparr>) (Some Stopped))
     (guild_id guild0)
     = Some (default_settings\<lparr>currently_playing := Some (''T'', ''t''),
                               song_queue := replicate 1200 (''X'', ''bad'')\<rparr>)
   \<and> \<not> resolves ydl_ex ''bad''
   \<and> (\<exists>b'. play_next_in_queue ydl_ex 987 guild0
          (bot_with (default_settings\<lparr>currently_playing := Some (''T'', ''t''),
                                       song_queue := replicate 1200 (''X'', ''bad'')\<rparr>) (Some Stopped))
          = Inl (RecursionError, b')
        \<and> queue_of guild0 b' = replicate 212 (''X'', ''bad'')
        \<and> logged b' = replicate 988 (DownloadError ''bad'')
        \<and> current_of guild0 b' = Some (''T'', ''t''))"
proof -
  let ?s = "default_settings\<lparr>currently_playing := Some (''T'', ''t''),
                              song_queue := replicate 1200 (''X'', ''bad'')\<rparr>"
  let ?b = "bot_with ?s (Some Stopped)"
  have h1: "guild_settings ?b (guild_id guild0) = Some ?s"
    by (simp add: bot_with_def guild0_def)
  have h2: "987 < length (song_queue ?s)" by simp
  have nr: "\<not> resolves ydl_ex ''bad''" by (simp add: resolves_def ydl_ex_def)
  have h3: "\<forall>x \<in> set (take (Suc 987) (song_queue ?s)). \<not> resolves ydl_ex (snd x)"
    using nr by (auto dest: in_set_takeD)
  from play_next_in_queue_recursion_error [OF h1 h2 h3] obtain b' where
    r: "play_next_in_queue ydl_ex 987 guild0 ?b = Inl (RecursionError, b')"
    and q: "queue_of guild0 b' = drop (Suc 987) (song_queue ?s)"
    and lg: "logged b' = logged ?b @ map (\<lambda>x. resolve_error ydl_ex (snd x))
                (take (Suc 987) (song_queue ?s))"
    and cur: "current_of guild0 b' = currently_playing ?s"
    by (elim exE conjE) (rule that)
  have "queue_of guild0 b' = replicate 212 (''X'', ''bad'')"
    using q by simp
  moreover have "logged b' = replicate 988 (DownloadError ''bad'')"
    using lg by (simp add: bot_with_def resolve_error_def ydl_ex_def)
  moreover have "current_of guild0 b' = Some (''T'', ''t'')"
    using cur by simp
  ultimately have "\<exists>b'. play_next_in_queue ydl_ex 987 guild0 ?b = Inl (RecursionError, b')
        \<and> queue_of guild0 b' = replicate 212 (''X'', ''bad'')
        \<and> logged b' = replicate 988 (DownloadError ''bad'')
        \<and> current_of guild0 b' = Some (''T'', ''t'')"
    using r by (intro exI conjI)
  with h1 nr show ?thesis by (intro conjI)
qed

text \<open>
  C9. For a position from 1 to the length of the queue, \<open>bump\<close> succeeds and the new
  queue is the entry at that position followed by the other entries in their old
  order. The witness is the scenario of the specification: position 3 of three.
\<close>

theorem bump_moves_to_front:
  assumes "guild_settings b (guild_id c) = Some s"
    and "1 \<le> pos" and "pos \<le> int (length (song_queue s))"
  shows "\<exists>b'. bump c pos b = Inr b' \<and>
           queue_of c b' =
             song_queue s ! nat (pos - 1)
               # (take (nat (pos - 1)) (song_queue s) @ drop (nat pos) (song_queue s))"
proof -
  from assms have ne: "song_queue s \<noteq> []" by auto
  from assms have pop: "list_pop (song_queue s) (pos - 1) =
      Some (song_queue s ! nat (pos - 1),
            take (nat (pos - 1)) (song_queue s) @ drop (nat pos) (song_queue s))"
    by (simp add: list_pop_def py_index_def Suc_nat_eq_nat_zadd1)
  show ?thesis
    using assms ne pop
    by (simp add: bump_def Let_def list_insert_def queue_of_update)
qed

theorem bump_moves_to_front_witness:
  "\<exists>b'. bump guild0 3
          (bot_with (default_settings\<lparr>song_queue := [(''S1'', ''u1''), (''S2'', ''u2''), (''S3'', ''u3'')]\<rparr>) None)
        = Inr b' \<and>
        queue_of guild0 b' = [(''S3'', ''u3''), (''S1'', ''u1''), (''S2'', ''u2'')]"
  using bump_moves_to_front [of "bot_with (default_settings\<lparr>song_queue := [(''S1'', ''u1''), (''S2'', ''u2''), (''S3'', ''u3'')]\<rparr>) None" guild0
      "default_settings\<lparr>song_queue := [(''S1'', ''u1''), (''S2'', ''u2''), (''S3'', ''u3'')]\<rparr>" 3]
  by (simp add: guild0_def bot_with_def)



end
